theory Spec2Isabelle
  imports Complex_Main
begin

section \<open>JavaScript strings\<close>

text \<open>
  Source strings are modelled as \<^typ>\<open>string\<close>; every code unit is taken to lie in the
  8-bit range. The helpers follow \<^verbatim>\<open>String.prototype.startsWith\<close>,
  \<^verbatim>\<open>endsWith\<close> and \<^verbatim>\<open>includes\<close> (here \<open>js_includes\<close>).
\<close>

fun startsWith :: "string \<Rightarrow> string \<Rightarrow> bool" where
  "startsWith s [] = True"
| "startsWith [] (p # ps) = False"
| "startsWith (c # s) (p # ps) = (c = p \<and> startsWith s ps)"

definition endsWith :: "string \<Rightarrow> string \<Rightarrow> bool" where
  "endsWith s p = startsWith (rev s) (rev p)"

fun js_includes :: "string \<Rightarrow> string \<Rightarrow> bool" where
  "js_includes [] p = (p = [])"
| "js_includes (c # s) p = (startsWith (c # s) p \<or> js_includes s p)"

text \<open>
  The regular-expression class \<^verbatim>\<open>\s\<close> (and the characters \<^verbatim>\<open>trim()\<close> removes),
  restricted to 8-bit code units: TAB, LF, VT, FF, CR, SPACE and NO-BREAK SPACE.
\<close>

definition is_space :: "char \<Rightarrow> bool" where
  "is_space c = (of_char c \<in> {9, 10, 11, 12, 13, 32, 160 :: nat})"

definition trim :: "string \<Rightarrow> string" where
  "trim s = rev (dropWhile is_space (rev (dropWhile is_space s)))"

section \<open>Thrown values\<close>

text \<open>
  What a \<^verbatim>\<open>catch (error)\<close> clause can receive: an \<^verbatim>\<open>Error\<close> instance with its
  message; some other object, whose \<^verbatim>\<open>message\<close> property is a string or undefined
  (a \<^verbatim>\<open>ProgressEvent\<close> passed to \<^verbatim>\<open>reject\<close> by \<^verbatim>\<open>fileToBase64\<close> is of this kind);
  or \<^verbatim>\<open>null\<close>/\<^verbatim>\<open>undefined\<close>, on which a property read itself throws.
\<close>

datatype thrown = ErrorObj string | OtherObj "string option" | Nullish

section \<open>Generation client: \<^verbatim>\<open>bringToLife\<close>\<close>

definition fence :: string where
  "fence = ''```''"

definition FAILED_PLACEHOLDER :: string where
  "FAILED_PLACEHOLDER = ''<!-- Failed to generate content -->''"

text \<open>\<^verbatim>\<open>text.replace(/^```html\s*/, '')\<close>: anchored at index 0, greedy white space.\<close>

definition strip_html_fence :: "string \<Rightarrow> string" where
  "strip_html_fence t =
     (if startsWith t ''```html'' then dropWhile is_space (drop 7 t) else t)"

text \<open>\<^verbatim>\<open>text.replace(/^```\s*/, '')\<close>.\<close>

definition strip_bare_fence :: "string \<Rightarrow> string" where
  "strip_bare_fence t =
     (if startsWith t fence then dropWhile is_space (drop 3 t) else t)"

text \<open>
  \<^verbatim>\<open>text.replace(/```$/, '')\<close>: without the \<^verbatim>\<open>m\<close> flag, \<^verbatim>\<open>$\<close> matches at the end of
  the input only, so the match is the last three code units or nothing.
\<close>

definition strip_trailing_fence :: "string \<Rightarrow> string" where
  "strip_trailing_fence t =
     (if endsWith t fence then take (length t - 3) t else t)"

definition strip_fences :: "string \<Rightarrow> string" where
  "strip_fences t = strip_trailing_fence (strip_bare_fence (strip_html_fence t))"

text \<open>\<^verbatim>\<open>response.text || "<!-- Failed to generate content -->"\<close>: undefined and the
  empty string are both falsy.\<close>

definition text_or_placeholder :: "string option \<Rightarrow> string" where
  "text_or_placeholder rt =
     (case rt of None \<Rightarrow> FAILED_PLACEHOLDER
      | Some t \<Rightarrow> if t = [] then FAILED_PLACEHOLDER else t)"

text \<open>
  \<^verbatim>\<open>bringToLife\<close>, as a function of what \<^verbatim>\<open>ai.models.generateContent\<close> does: it
  throws, or it resolves to a response whose \<^verbatim>\<open>text\<close> is a string or undefined. The
  \<^verbatim>\<open>catch\<close> clause logs and re-throws the same value.
\<close>

definition bringToLife :: "thrown + string option \<Rightarrow> thrown + string" where
  "bringToLife generateContent =
     (case generateContent of
        Inl e \<Rightarrow> Inl e
      | Inr rt \<Rightarrow> Inr (strip_fences (text_or_placeholder rt)))"

section \<open>Generation client and video poller: \<^verbatim>\<open>bringToLifeAsVideo\<close>\<close>

text \<open>
  The operation handle as the code reads it: \<^verbatim>\<open>operation.done\<close>,
  \<^verbatim>\<open>operation.status?.state\<close>, \<^verbatim>\<open>operation.status.error?.message\<close> and
  \<^verbatim>\<open>operation.response?.generatedVideos?.[0]?.video?.uri\<close> (\<open>None\<close> when any link of the
  optional chain is missing).
\<close>

record op_status =
  st_state :: "string option"
  st_error_message :: "string option"

record operation =
  op_done :: bool
  op_status :: "op_status option"
  op_uri :: "string option"

text \<open>What \<^verbatim>\<open>fetch\<close> resolves to: \<^verbatim>\<open>ok\<close>, \<^verbatim>\<open>statusText\<close>, and the outcome of
  \<^verbatim>\<open>blob()\<close> followed by \<^verbatim>\<open>URL.createObjectURL\<close>.\<close>

record http_response =
  res_ok :: bool
  res_statusText :: string
  res_objectUrl :: "thrown + string"

text \<open>
  The world \<^verbatim>\<open>bringToLifeAsVideo\<close> runs in: the outcome of \<^verbatim>\<open>generateVideos\<close>, the
  outcomes of the successive \<^verbatim>\<open>getVideosOperation\<close> calls (a finite script; when it is
  used up the loop is still waiting), \<^verbatim>\<open>fetch\<close> as a function of the URL, and
  \<^verbatim>\<open>process.env.API_KEY\<close>.
\<close>

record video_env =
  generateVideos :: "thrown + operation"
  getVideosOperation :: "(thrown + operation) list"
  fetch_video :: "string \<Rightarrow> thrown + http_response"
  API_KEY :: string

definition POLL_DELAY_MS :: nat where
  "POLL_DELAY_MS = 10000"

text \<open>
  \<^verbatim>\<open>while (!operation.done) { await delay(10000); operation = await getVideosOperation(..) }\<close>.
  The result carries the delays waited so far, in milliseconds; \<open>None\<close> means the loop has
  not returned on this script.
\<close>

fun poll :: "operation \<Rightarrow> (thrown + operation) list \<Rightarrow> nat list
    \<Rightarrow> ((thrown + operation) \<times> nat list) option" where
  "poll opn [] ds = (if op_done opn then Some (Inr opn, ds) else None)"
| "poll opn (r # rs) ds =
     (if op_done opn then Some (Inr opn, ds)
      else (case r of
              Inl e \<Rightarrow> Some (Inl e, ds @ [POLL_DELAY_MS])
            | Inr opn' \<Rightarrow> poll opn' rs (ds @ [POLL_DELAY_MS])))"

definition is_failed :: "operation \<Rightarrow> bool" where
  "is_failed opn =
     (case op_status opn of None \<Rightarrow> False | Some st \<Rightarrow> st_state st = Some ''FAILED'')"

text \<open>The template literal prints a missing message as \<^verbatim>\<open>undefined\<close>.\<close>

definition failure_message :: "operation \<Rightarrow> string" where
  "failure_message opn =
     ''Video generation failed: '' @
       (case op_status opn of
          None \<Rightarrow> ''undefined''
        | Some st \<Rightarrow> (case st_error_message st of None \<Rightarrow> ''undefined'' | Some m \<Rightarrow> m))"

definition NO_LINK_MESSAGE :: string where
  "NO_LINK_MESSAGE = ''Video generation succeeded, but no download link was found.''"

text \<open>\<^verbatim>\<open>!downloadLink\<close> holds for undefined and for the empty string.\<close>

definition downloadLink :: "operation \<Rightarrow> string option" where
  "downloadLink opn =
     (case op_uri opn of None \<Rightarrow> None | Some u \<Rightarrow> if u = [] then None else Some u)"

text \<open>The statements after the loop, up to the \<^verbatim>\<open>return\<close>.\<close>

definition after_poll :: "video_env \<Rightarrow> operation \<Rightarrow> thrown + string" where
  "after_poll env opn =
     (if is_failed opn then Inl (ErrorObj (failure_message opn))
      else (case downloadLink opn of
              None \<Rightarrow> Inl (ErrorObj NO_LINK_MESSAGE)
            | Some link \<Rightarrow>
                (case fetch_video env (link @ ''&key='' @ API_KEY env) of
                   Inl e \<Rightarrow> Inl e
                 | Inr res \<Rightarrow>
                     if res_ok res then res_objectUrl res
                     else Inl (ErrorObj (''Failed to download video file: '' @ res_statusText res)))))"

definition ENTITY_NOT_FOUND :: string where
  "ENTITY_NOT_FOUND = ''Requested entity was not found.''"

definition API_KEY_ERROR :: thrown where
  "API_KEY_ERROR = ErrorObj ''API key not found. Please re-select your API key and try again.''"

text \<open>The \<^verbatim>\<open>catch\<close> clause around the whole body: its test
  \<^verbatim>\<open>error instanceof Error && error.message.includes("Requested entity was not found.")\<close>,
  and what it throws.\<close>

definition entity_not_found :: "thrown \<Rightarrow> bool" where
  "entity_not_found e =
     (case e of
        ErrorObj m \<Rightarrow> js_includes m ENTITY_NOT_FOUND
      | OtherObj m \<Rightarrow> False
      | Nullish \<Rightarrow> False)"

definition video_catch :: "thrown \<Rightarrow> thrown" where
  "video_catch e = (if entity_not_found e then API_KEY_ERROR else e)"

text \<open>The body of the \<^verbatim>\<open>try\<close>: what it returns or throws, with the delays waited.\<close>

definition video_try :: "video_env \<Rightarrow> ((thrown + string) \<times> nat list) option" where
  "video_try env =
     (case generateVideos env of
        Inl e \<Rightarrow> Some (Inl e, [])
      | Inr op0 \<Rightarrow>
          (case poll op0 (getVideosOperation env) [] of
             None \<Rightarrow> None
           | Some (Inl e, ds) \<Rightarrow> Some (Inl e, ds)
           | Some (Inr opn, ds) \<Rightarrow> Some (after_poll env opn, ds)))"

definition bringToLifeAsVideo :: "video_env \<Rightarrow> ((thrown + string) \<times> nat list) option" where
  "bringToLifeAsVideo env =
     (case video_try env of
        None \<Rightarrow> None
      | Some (Inl e, ds) \<Rightarrow> Some (Inl (video_catch e), ds)
      | Some (Inr url, ds) \<Rightarrow> Some (Inr url, ds))"

text \<open>The operation on which the loop stopped, when it did.\<close>

definition polled_operation :: "video_env \<Rightarrow> operation option" where
  "polled_operation env =
     (case generateVideos env of
        Inl e \<Rightarrow> None
      | Inr op0 \<Rightarrow>
          (case poll op0 (getVideosOperation env) [] of
             Some (Inr opn, ds) \<Rightarrow> Some opn
           | _ \<Rightarrow> None))"

section \<open>JavaScript values and objects\<close>

text \<open>
  A \<^verbatim>\<open>Date\<close> holds a time value in milliseconds or is an Invalid Date (time value NaN).
\<close>

datatype jsdate = ValidDate int | InvalidDate

text \<open>
  A number: a finite double (given by its value; a rational outside the range of doubles
  stands for no number of the program), negative zero, or an infinity. \<^verbatim>\<open>JSON.parse\<close>
  yields the infinities for literals beyond the range of doubles, such as \<^verbatim>\<open>1e400\<close>.
  NaN does not occur: the program computes no number, and JSON has none.
\<close>

datatype jsnum = Finite rat | NegZero | PosInfinity | NegInfinity

text \<open>
  The values a property of a creation can hold: undefined, the values of JSON, and Dates.
  Strings come in two kinds: \<open>JIsoStr t\<close> is the ISO-8601 text that \<^verbatim>\<open>toISOString\<close>
  writes for the time value \<open>t\<close> and \<^verbatim>\<open>Date.parse\<close> reads back as \<open>t\<close>; \<open>JStr s\<close> is any
  other text. An array is given by its elements, and an object held in a property by its
  own properties, in their order.
\<close>

datatype jsval =
    JUndefined
  | JNull
  | JBool bool
  | JNum jsnum
  | JStr string
  | JIsoStr int
  | JDate jsdate
  | JArr "jsval list"
  | JObj "(string \<times> jsval) list"

text \<open>A creation, or an object that \<^verbatim>\<open>JSON.parse\<close> returns for a whole text, is a finite
  map from property names to values; \<^verbatim>\<open>o.k\<close> of a missing property is undefined.\<close>

type_synonym obj = "string \<rightharpoonup> jsval"

definition get :: "obj \<Rightarrow> string \<Rightarrow> jsval" where
  "get ob k = (case ob k of None \<Rightarrow> JUndefined | Some v \<Rightarrow> v)"

fun truthy :: "jsval \<Rightarrow> bool" where
  "truthy JUndefined = False"
| "truthy JNull = False"
| "truthy (JBool b) = b"
| "truthy (JNum n) = (n \<noteq> Finite 0 \<and> n \<noteq> NegZero)"
| "truthy (JStr s) = (s \<noteq> [])"
| "truthy (JIsoStr t) = True"
| "truthy (JDate d) = True"
| "truthy (JArr xs) = True"
| "truthy (JObj kvs) = True"

text \<open>\<^verbatim>\<open>a || b\<close>.\<close>

definition js_or :: "jsval \<Rightarrow> jsval \<Rightarrow> jsval" where
  "js_or a b = (if truthy a then a else b)"

definition MAX_TIME :: int where
  "MAX_TIME = 8640000000000000"

text \<open>Truncation towards zero, as in the conversion of a number to a time value.\<close>

definition js_trunc :: "rat \<Rightarrow> int" where
  "js_trunc q = (if 0 \<le> q then \<lfloor>q\<rfloor> else - \<lfloor>- q\<rfloor>)"

definition time_of_number :: "jsnum \<Rightarrow> jsdate" where
  "time_of_number n =
     (case n of
        Finite q \<Rightarrow> if abs q \<le> of_int MAX_TIME then ValidDate (js_trunc q) else InvalidDate
      | NegZero \<Rightarrow> ValidDate 0
      | PosInfinity \<Rightarrow> InvalidDate
      | NegInfinity \<Rightarrow> InvalidDate)"

text \<open>
  \<^verbatim>\<open>new Date(v)\<close> with one argument: a Date is copied; a string is parsed, and so is the
  text that an array or an object is first converted to; anything else is converted to a
  number (\<^verbatim>\<open>null\<close> to 0, \<^verbatim>\<open>undefined\<close> to NaN) and clipped to the range of time values.
  What \<^verbatim>\<open>Date.parse\<close> makes of a text other than the output of \<^verbatim>\<open>toISOString\<close> depends on
  the engine, and so does the text of a number inside an array: \<open>Date_parse v\<close> is the
  parameter that gives the outcome of parsing the text of \<open>v\<close>.
\<close>

fun new_Date :: "(jsval \<Rightarrow> jsdate) \<Rightarrow> jsval \<Rightarrow> jsdate" where
  "new_Date Date_parse JUndefined = InvalidDate"
| "new_Date Date_parse JNull = ValidDate 0"
| "new_Date Date_parse (JBool b) = ValidDate (if b then 1 else 0)"
| "new_Date Date_parse (JNum n) = time_of_number n"
| "new_Date Date_parse (JStr s) = Date_parse (JStr s)"
| "new_Date Date_parse (JIsoStr t) = ValidDate t"
| "new_Date Date_parse (JDate d) = d"
| "new_Date Date_parse (JArr xs) = Date_parse (JArr xs)"
| "new_Date Date_parse (JObj kvs) = Date_parse (JObj kvs)"

section \<open>JSON\<close>

text \<open>
  \<^verbatim>\<open>JSON.stringify\<close> on an object, property by property: a property whose value is
  undefined is left out; a Date is written through \<^verbatim>\<open>toJSON\<close> (its ISO text, or
  \<^verbatim>\<open>null\<close> when invalid); an infinity is written as \<^verbatim>\<open>null\<close> and negative zero as
  \<^verbatim>\<open>0\<close>; null, booleans, finite numbers and strings are written as they are; an array is
  written element by element, with \<^verbatim>\<open>null\<close> for an undefined element, and an object
  property by property. The result is given as the value that \<^verbatim>\<open>JSON.parse\<close> reads back
  from the text written (\<open>None\<close>: nothing is written).
\<close>

fun toJSON :: "jsval \<Rightarrow> jsval option" where
  "toJSON JUndefined = None"
| "toJSON JNull = Some JNull"
| "toJSON (JBool b) = Some (JBool b)"
| "toJSON (JNum (Finite q)) = Some (JNum (Finite q))"
| "toJSON (JNum NegZero) = Some (JNum (Finite 0))"
| "toJSON (JNum PosInfinity) = Some JNull"
| "toJSON (JNum NegInfinity) = Some JNull"
| "toJSON (JStr s) = Some (JStr s)"
| "toJSON (JIsoStr t) = Some (JIsoStr t)"
| "toJSON (JDate (ValidDate t)) = Some (JIsoStr t)"
| "toJSON (JDate InvalidDate) = Some JNull"
| "toJSON (JArr xs) =
     Some (JArr (map (\<lambda>x. case toJSON x of None \<Rightarrow> JNull | Some w \<Rightarrow> w) xs))"
| "toJSON (JObj kvs) =
     Some (JObj (concat (map (\<lambda>kv. case toJSON (snd kv) of
                                      None \<Rightarrow> []
                                    | Some w \<Rightarrow> [(fst kv, w)]) kvs)))"

definition JSON_stringify :: "obj \<Rightarrow> obj" where
  "JSON_stringify ob = (\<lambda>k. case ob k of None \<Rightarrow> None | Some v \<Rightarrow> toJSON v)"

text \<open>
  The values of JSON: null, booleans, finite numbers (negative zero is written as zero),
  strings, and arrays and objects of such values.
\<close>

fun json_value :: "jsval \<Rightarrow> bool" where
  "json_value JUndefined = False"
| "json_value JNull = True"
| "json_value (JBool b) = True"
| "json_value (JNum (Finite q)) = True"
| "json_value (JNum NegZero) = False"
| "json_value (JNum PosInfinity) = False"
| "json_value (JNum NegInfinity) = False"
| "json_value (JStr s) = True"
| "json_value (JIsoStr t) = True"
| "json_value (JDate d) = False"
| "json_value (JArr xs) = list_all json_value xs"
| "json_value (JObj kvs) = list_all (\<lambda>kv. json_value (snd kv)) kvs"

text \<open>
  The values of a property that a reader of the property finds again after
  \<^verbatim>\<open>JSON.stringify\<close> and \<^verbatim>\<open>JSON.parse\<close>: those of JSON, and undefined, since a property
  left out reads as undefined.
\<close>

definition json_plain :: "jsval \<Rightarrow> bool" where
  "json_plain v = (v = JUndefined \<or> json_value v)"

text \<open>
  What \<^verbatim>\<open>JSON.parse\<close> returns when it does not throw: \<^verbatim>\<open>null\<close>; a number or a boolean
  (no properties of its own); or an object. A string or an array is given as the object
  of its own enumerable properties, the indexed characters or elements: these are what a
  spread copies, and the properties the code reads by name are undefined on it.
\<close>

datatype parsed = PNull | PAtom | PObject obj

text \<open>The own enumerable properties of a parsed value; \<open>None\<close> for \<^verbatim>\<open>null\<close>, on which
  a property read throws.\<close>

definition own_props :: "parsed \<Rightarrow> obj option" where
  "own_props v = (case v of PNull \<Rightarrow> None | PAtom \<Rightarrow> Some Map.empty | PObject ob \<Rightarrow> Some ob)"

section \<open>Creation store: persist, load, export\<close>

text \<open>\<^verbatim>\<open>const { videoUrl, ...rest } = c\<close>.\<close>

definition omit_videoUrl :: "obj \<Rightarrow> obj" where
  "omit_videoUrl c = c(''videoUrl'' := None)"

text \<open>
  The item \<^verbatim>\<open>gemini_app_history\<close> of local storage: absent (\<open>None\<close>), a text that is not
  a JSON array (\<^verbatim>\<open>JSON.parse\<close> throws, or its result has no \<^verbatim>\<open>map\<close> to call; the empty
  text is falsy and is not parsed at all), or a JSON array, given by its elements.
\<close>

datatype stored = RawText string | JsonArray "parsed list"

text \<open>
  The persist effect, run whenever \<^verbatim>\<open>history\<close> changes. \<open>setItem_ok\<close> says whether
  \<^verbatim>\<open>localStorage.setItem\<close> succeeds; its failure is caught and logged.
\<close>

definition persist :: "bool \<Rightarrow> obj list \<Rightarrow> stored option \<Rightarrow> stored option" where
  "persist setItem_ok hist ls =
     (if length hist > 0
      then (if setItem_ok
            then Some (JsonArray (map (\<lambda>c. PObject (JSON_stringify (omit_videoUrl c))) hist))
            else ls)
      else ls)"

text \<open>\<^verbatim>\<open>{ ...item, timestamp: new Date(item.timestamp) }\<close>.\<close>

definition revive :: "(jsval \<Rightarrow> jsdate) \<Rightarrow> obj \<Rightarrow> obj" where
  "revive Date_parse item =
     item(''timestamp'' \<mapsto> JDate (new_Date Date_parse (get item ''timestamp'')))"

text \<open>
  The first half of \<^verbatim>\<open>initHistory\<close>: \<^verbatim>\<open>loadedHistory\<close>. The \<^verbatim>\<open>map\<close> gives one record
  for every element of the stored array; on an element \<^verbatim>\<open>null\<close> it throws, and
  \<^verbatim>\<open>loadedHistory\<close> stays empty.
\<close>

definition load_saved :: "(jsval \<Rightarrow> jsdate) \<Rightarrow> stored option \<Rightarrow> obj list" where
  "load_saved Date_parse saved =
     (case saved of
        None \<Rightarrow> []
      | Some (RawText t) \<Rightarrow> []
      | Some (JsonArray items) \<Rightarrow>
          (case those (map own_props items) of
             None \<Rightarrow> []
           | Some obs \<Rightarrow> map (revive Date_parse) obs))"

text \<open>A string, of either kind.\<close>

definition is_string :: "jsval \<Rightarrow> bool" where
  "is_string v = (case v of JStr s \<Rightarrow> True | JIsoStr t \<Rightarrow> True | _ \<Rightarrow> False)"

text \<open>
  \<^verbatim>\<open>handleExport\<close>: nothing happens without a creation. The JSON text is built from the
  creation without \<^verbatim>\<open>videoUrl\<close>; then the name of the download is computed with
  \<^verbatim>\<open>creation.name.replace(..)\<close>, which throws a \<^verbatim>\<open>TypeError\<close> unless the name is a
  string, so that nothing is downloaded; otherwise the text is downloaded.
\<close>

datatype export_result = NoExport | ExportTypeError | Download obj

definition handleExport :: "obj option \<Rightarrow> export_result" where
  "handleExport creation =
     (case creation of
        None \<Rightarrow> NoExport
      | Some c \<Rightarrow>
          (let dataStr = JSON_stringify (omit_videoUrl c)
           in if is_string (get c ''name'') then Download dataStr else ExportTypeError))"

subsection \<open>Remote example bootstrap\<close>

definition exampleUrls :: "string list" where
  "exampleUrls =
     [''https://storage.googleapis.com/sideprojects-asronline/bringanythingtolife/vibecode-blog.json'',
      ''https://storage.googleapis.com/sideprojects-asronline/bringanythingtolife/cassette.json'',
      ''https://storage.googleapis.com/sideprojects-asronline/bringanythingtolife/chess.json'']"

text \<open>
  What fetching one example can do: \<^verbatim>\<open>fetch\<close> rejects (a network failure); it resolves
  to a response that is not \<^verbatim>\<open>ok\<close>; or to an \<^verbatim>\<open>ok\<close> response whose \<^verbatim>\<open>json()\<close> rejects
  (\<open>None\<close>) or resolves to a parsed value.
\<close>

datatype fetched = FetchRejected | NotOk | OkBody "parsed option"

record example_env =
  fetch_example :: "string \<Rightarrow> fetched"
  ex_now :: int
  ex_uuid :: "string \<Rightarrow> string"

text \<open>
  The callback mapped over the URLs. \<open>None\<close>: its promise rejects (the fetch, the
  \<^verbatim>\<open>json()\<close> call, or the read of \<^verbatim>\<open>data.timestamp\<close> on \<^verbatim>\<open>null\<close>). \<open>Some None\<close>: it
  resolves to \<^verbatim>\<open>null\<close>. \<open>Some (Some c)\<close>: it resolves to the creation \<open>c\<close>.
\<close>

definition with_defaults :: "(jsval \<Rightarrow> jsdate) \<Rightarrow> obj \<Rightarrow> int \<Rightarrow> string \<Rightarrow> obj" where
  "with_defaults Date_parse data now_ms fresh =
     data(''timestamp'' \<mapsto>
            JDate (new_Date Date_parse
                     (js_or (get data ''timestamp'') (JNum (Finite (of_int now_ms))))),
          ''id'' \<mapsto> js_or (get data ''id'') (JStr fresh))"

definition load_example :: "(jsval \<Rightarrow> jsdate) \<Rightarrow> example_env \<Rightarrow> string \<Rightarrow> obj option option" where
  "load_example Date_parse env url =
     (case fetch_example env url of
        FetchRejected \<Rightarrow> None
      | NotOk \<Rightarrow> Some None
      | OkBody None \<Rightarrow> None
      | OkBody (Some PNull) \<Rightarrow> None
      | OkBody (Some PAtom) \<Rightarrow>
          Some (Some (with_defaults Date_parse Map.empty (ex_now env) (ex_uuid env url)))
      | OkBody (Some (PObject data)) \<Rightarrow>
          Some (Some (with_defaults Date_parse data (ex_now env) (ex_uuid env url))))"

text \<open>\<^verbatim>\<open>Promise.all\<close>: rejects as soon as one of the promises rejects.\<close>

fun Promise_all :: "'a option list \<Rightarrow> 'a list option" where
  "Promise_all [] = Some []"
| "Promise_all (None # ps) = None"
| "Promise_all (Some x # ps) = (case Promise_all ps of None \<Rightarrow> None | Some xs \<Rightarrow> Some (x # xs))"

text \<open>\<^verbatim>\<open>examples.filter(e => e !== null)\<close>.\<close>

fun drop_nulls :: "'a option list \<Rightarrow> 'a list" where
  "drop_nulls [] = []"
| "drop_nulls (None # xs) = drop_nulls xs"
| "drop_nulls (Some x # xs) = x # drop_nulls xs"

text \<open>
  \<^verbatim>\<open>initHistory\<close>: the value of \<^verbatim>\<open>history\<close> after it has run, from the value before
  (the initial state \<open>[]\<close>). A rejection of \<^verbatim>\<open>Promise.all\<close> is caught and logged, and
  \<^verbatim>\<open>setHistory\<close> is not called.
\<close>

definition initHistory :: "(jsval \<Rightarrow> jsdate) \<Rightarrow> stored option \<Rightarrow> example_env \<Rightarrow> obj list
    \<Rightarrow> obj list" where
  "initHistory Date_parse saved env hist =
     (let loadedHistory = load_saved Date_parse saved in
      if length loadedHistory > 0 then loadedHistory
      else (case Promise_all (map (load_example Date_parse env) exampleUrls) of
              None \<Rightarrow> hist
            | Some examples \<Rightarrow> drop_nulls examples))"

section \<open>Input area: \<^verbatim>\<open>handleGenerateClick\<close>\<close>

datatype GenerationMode = App | Video

definition mode_tag :: "GenerationMode \<Rightarrow> string" where
  "mode_tag m = (case m of App \<Rightarrow> ''app'' | Video \<Rightarrow> ''video'')"

text \<open>
  A \<^verbatim>\<open>File\<close>: its name, its MIME type, and what \<^verbatim>\<open>fileToBase64\<close> does on it (it
  rejects, or resolves to \<^verbatim>\<open>reader.result.split(',')[1]\<close>, which is undefined when the
  data URL has no comma).
\<close>

record upload =
  file_name :: string
  file_type :: string
  read_base64 :: "thrown + string option"

text \<open>The component's state: \<^verbatim>\<open>mode\<close>, \<^verbatim>\<open>prompt\<close>, \<^verbatim>\<open>stagedFile\<close>.\<close>

record input_area =
  ia_mode :: GenerationMode
  ia_prompt :: string
  stagedFile :: "upload option"

text \<open>What a click does: nothing, an alert, or a call of \<^verbatim>\<open>onGenerate\<close> with its three
  arguments.\<close>

datatype click = Ignored | Alerted string | OnGenerate string "upload option" GenerationMode

text \<open>The handler, given the properties \<^verbatim>\<open>isGenerating\<close> and \<^verbatim>\<open>disabled\<close>: what it
  does, and the component's state afterwards.\<close>

definition handleGenerateClick :: "bool \<Rightarrow> bool \<Rightarrow> input_area \<Rightarrow> click \<times> input_area" where
  "handleGenerateClick generating disabled ia =
     (if generating \<or> disabled then (Ignored, ia)
      else if ia_mode ia = App \<and> stagedFile ia = None
        then (Alerted ''Please upload a file to generate an app.'', ia)
      else if ia_mode ia = Video \<and> trim (ia_prompt ia) = [] \<and> stagedFile ia = None
        then (Alerted ''Please provide a prompt or an image to generate a video.'', ia)
      else (OnGenerate (ia_prompt ia) (stagedFile ia) (ia_mode ia),
            ia\<lparr>ia_prompt := [], stagedFile := None\<rparr>))"

section \<open>Session controller\<close>

text \<open>A call of the generation client, with its prompt.\<close>

datatype client_call = CallBringToLife string | CallBringToLifeAsVideo string

text \<open>
  The state of \<^verbatim>\<open>App\<close>: the four \<^verbatim>\<open>useState\<close> cells, and a log of what has happened
  (the texts passed to \<^verbatim>\<open>alert\<close>, how often the key dialog was opened, and the calls of
  the generation client, in order).
\<close>

record app_state =
  activeCreation :: "obj option"
  isGenerating :: bool
  generationMode :: GenerationMode
  history :: "obj list"
  alerts :: "string list"
  keyDialogs :: nat
  calls :: "client_call list"

text \<open>\<^verbatim>\<open>window.aistudio\<close>, when present: what its two calls resolve to or reject with.\<close>

record aistudio =
  hasSelectedApiKey :: "thrown + bool"
  openSelectKey :: "thrown + unit"

record gen_env =
  window_aistudio :: "aistudio option"
  video_world :: video_env
  generateContent :: "thrown + string option"
  randomUUID :: string
  Date_now :: int

text \<open>How a handler ends: it returns, or a \<^verbatim>\<open>TypeError\<close> raised inside its \<^verbatim>\<open>catch\<close>
  clause leaves it (after the \<^verbatim>\<open>finally\<close> clause has run).\<close>

datatype completion = Returned | UncaughtTypeError

text \<open>\<^verbatim>\<open>toLowerCase\<close> on 8-bit code units.\<close>

definition lower_char :: "char \<Rightarrow> char" where
  "lower_char c =
     (let n = (of_char c :: nat) in
      if (65 \<le> n \<and> n \<le> 90) \<or> (192 \<le> n \<and> n \<le> 222 \<and> n \<noteq> 215) then char_of (n + 32) else c)"

definition toLowerCase :: "string \<Rightarrow> string" where
  "toLowerCase s = map lower_char s"

subsection \<open>Handlers as sequences of steps\<close>

text \<open>
  An asynchronous handler runs in pieces: between an \<^verbatim>\<open>await\<close> and the code after it,
  other handlers can run. A run of a handler is given as the list of its state updates
  (\<open>Do\<close>), each applied to the state of that moment, with an \<open>Await\<close> wherever the handler
  waits. The handlers below read the state only through the functional update of
  \<^verbatim>\<open>setHistory\<close>, so their updates are functions of the state they find.
\<close>

type_synonym step = "app_state \<Rightarrow> app_state"

datatype action = Do step | Await

text \<open>How the body of a \<^verbatim>\<open>try\<close> ends: it waits for ever, it completes, or it throws.\<close>

datatype outcome = Pending | Completed | Threw thrown

text \<open>The states a list of updates goes through.\<close>

fun applied :: "step list \<Rightarrow> app_state \<Rightarrow> app_state list" where
  "applied [] s = []"
| "applied (f # fs) s = f s # applied fs (f s)"

text \<open>
  The states a run goes through, from the state \<open>s\<close>: \<open>ms\<close> gives, for each \<open>Await\<close> in
  turn, the updates that other handlers make while the handler waits there (none once
  \<open>ms\<close> is used up).
\<close>

fun run :: "action list \<Rightarrow> step list list \<Rightarrow> app_state \<Rightarrow> app_state list" where
  "run [] ms s = []"
| "run (Do f # acts) ms s = f s # run acts ms (f s)"
| "run (Await # acts) [] s = run acts [] s"
| "run (Await # acts) (m # ms) s = applied m s @ run acts ms (last (s # applied m s))"

text \<open>The state a handler that runs alone leaves, or waits in.\<close>

definition run_alone :: "action list \<Rightarrow> app_state \<Rightarrow> app_state" where
  "run_alone acts s = last (s # run acts [] s)"

definition after :: "action list \<Rightarrow> action list \<times> outcome \<Rightarrow> action list \<times> outcome" where
  "after pre body = (case body of (acts, oc) \<Rightarrow> (pre @ acts, oc))"

definition open_dialog :: step where
  "open_dialog s = s\<lparr>keyDialogs := keyDialogs s + 1\<rparr>"

definition log_call :: "client_call \<Rightarrow> step" where
  "log_call c s = s\<lparr>calls := calls s @ [c]\<rparr>"

text \<open>
  The check for a key before a video is requested:
  \<^verbatim>\<open>if (window.aistudio) { let hasKey = await ..hasSelectedApiKey(); if (!hasKey) await ..openSelectKey(); }\<close>.
  The dialog is counted when it is opened. The second component is what is thrown, if
  anything.
\<close>

definition key_actions :: "aistudio option \<Rightarrow> action list \<times> thrown option" where
  "key_actions ai =
     (case ai of
        None \<Rightarrow> ([], None)
      | Some a \<Rightarrow>
          (case hasSelectedApiKey a of
             Inl e \<Rightarrow> ([Await], Some e)
           | Inr hasKey \<Rightarrow>
               if hasKey then ([Await], None)
               else (case openSelectKey a of
                       Inl e \<Rightarrow> ([Await, Do open_dialog, Await], Some e)
                     | Inr u \<Rightarrow> ([Await, Do open_dialog, Await], None))))"

text \<open>\<^verbatim>\<open>setActiveCreation(c); setHistory(prev => [c, ...prev])\<close>.\<close>

definition add_creation :: "obj \<Rightarrow> app_state \<Rightarrow> app_state" where
  "add_creation c s = s\<lparr>activeCreation := Some c, history := c # history s\<rparr>"

text \<open>
  The key check, the \<^verbatim>\<open>await bringToLifeAsVideo(..)\<close> and the \<^verbatim>\<open>if (videoUrl)\<close> after
  it, shared by both handlers; \<open>mk\<close> builds the creation from the URL. The call of the
  client is logged when it is made.
\<close>

definition video_actions :: "gen_env \<Rightarrow> string \<Rightarrow> (string \<Rightarrow> obj) \<Rightarrow> action list \<times> outcome" where
  "video_actions env promptText mk =
     (case key_actions (window_aistudio env) of
        (ka, Some e) \<Rightarrow> (ka, Threw e)
      | (ka, None) \<Rightarrow>
          (let call = ka @ [Do (log_call (CallBringToLifeAsVideo promptText)), Await]
           in case bringToLifeAsVideo (video_world env) of
                None \<Rightarrow> (call, Pending)
              | Some (Inl e, ds) \<Rightarrow> (call, Threw e)
              | Some (Inr videoUrl, ds) \<Rightarrow>
                  (call @ (if videoUrl \<noteq> [] then [Do (add_creation (mk videoUrl))] else []),
                   Completed)))"

definition new_name :: "string \<Rightarrow> upload option \<Rightarrow> string" where
  "new_name promptText file =
     (let fname = (case file of None \<Rightarrow> [] | Some f \<Rightarrow> file_name f) in
      if fname \<noteq> [] then fname
      else if take 30 promptText \<noteq> [] then take 30 promptText
      else ''New Creation'')"

definition data_url :: "string option \<Rightarrow> string option \<Rightarrow> jsval" where
  "data_url imageBase64 mimeType =
     (case (imageBase64, mimeType) of
        (Some b, Some m) \<Rightarrow>
          if b \<noteq> [] \<and> m \<noteq> [] then JStr (''data:'' @ m @ '';base64,'' @ b) else JUndefined
      | _ \<Rightarrow> JUndefined)"

definition stamp :: "gen_env \<Rightarrow> obj \<Rightarrow> obj" where
  "stamp env c = c(''id'' \<mapsto> JStr (randomUUID env), ''timestamp'' \<mapsto> JDate (ValidDate (Date_now env)))"

subsection \<open>\<^verbatim>\<open>handleGenerate\<close>\<close>

text \<open>The statements before the \<^verbatim>\<open>try\<close>.\<close>

definition handleGenerate_begin :: "GenerationMode \<Rightarrow> app_state \<Rightarrow> app_state" where
  "handleGenerate_begin m s = s\<lparr>isGenerating := True, generationMode := m, activeCreation := None\<rparr>"

text \<open>The body of the \<^verbatim>\<open>try\<close>.\<close>

definition handleGenerate_try :: "gen_env \<Rightarrow> string \<Rightarrow> upload option \<Rightarrow> GenerationMode
    \<Rightarrow> action list \<times> outcome" where
  "handleGenerate_try env promptText file m =
     (let body = (\<lambda>imageBase64 mimeType.
            let newCreation =
                  [''name'' \<mapsto> JStr (new_name promptText file),
                   ''originalImage'' \<mapsto> data_url imageBase64 mimeType,
                   ''type'' \<mapsto> JStr (mode_tag m)]
            in case m of
                 Video \<Rightarrow>
                   video_actions env promptText
                     (\<lambda>videoUrl. stamp env (newCreation(''videoUrl'' \<mapsto> JStr videoUrl)))
               | App \<Rightarrow>
                   (let call = [Do (log_call (CallBringToLife promptText)), Await]
                    in case bringToLife (generateContent env) of
                         Inl e \<Rightarrow> (call, Threw e)
                       | Inr html \<Rightarrow>
                           (call @ (if html \<noteq> []
                                    then [Do (add_creation
                                                (stamp env (newCreation(''html'' \<mapsto> JStr html))))]
                                    else []),
                            Completed)))
      in case file of
           None \<Rightarrow> body None None
         | Some f \<Rightarrow>
             (case read_base64 f of
                Inl e \<Rightarrow> ([Await], Threw e)
              | Inr b \<Rightarrow> after [Await] (body b (Some (toLowerCase (file_type f))))))"

text \<open>
  The \<^verbatim>\<open>catch\<close> clause of both handlers, which differ in the prefix of the alert:
  \<^verbatim>\<open>alert(prefix + (error.message || "Please try again."))\<close>, then
  \<^verbatim>\<open>error.message.includes("API key not found")\<close>, which throws a \<^verbatim>\<open>TypeError\<close> when the
  message is undefined; on \<^verbatim>\<open>null\<close>/\<^verbatim>\<open>undefined\<close> the first read of \<^verbatim>\<open>error.message\<close>
  throws. Its state update, and how it ends.
\<close>

definition catch_step :: "string \<Rightarrow> aistudio option \<Rightarrow> thrown \<Rightarrow> step" where
  "catch_step prefix ai e s =
     (let on_message = (\<lambda>m.
            let s' = s\<lparr>alerts := alerts s @ [prefix @ (if m = [] then ''Please try again.'' else m)]\<rparr>
            in if js_includes m ''API key not found'' \<and> ai \<noteq> None
               then s'\<lparr>keyDialogs := keyDialogs s' + 1\<rparr> else s')
      in case e of
           ErrorObj m \<Rightarrow> on_message m
         | OtherObj (Some m) \<Rightarrow> on_message m
         | OtherObj None \<Rightarrow> s\<lparr>alerts := alerts s @ [prefix @ ''Please try again.'']\<rparr>
         | Nullish \<Rightarrow> s)"

definition catch_completion :: "thrown \<Rightarrow> completion" where
  "catch_completion e =
     (case e of
        ErrorObj m \<Rightarrow> Returned
      | OtherObj (Some m) \<Rightarrow> Returned
      | OtherObj None \<Rightarrow> UncaughtTypeError
      | Nullish \<Rightarrow> UncaughtTypeError)"

text \<open>The \<^verbatim>\<open>finally\<close> clause of both handlers.\<close>

definition generate_finally :: "app_state \<Rightarrow> app_state" where
  "generate_finally s = s\<lparr>isGenerating := False\<rparr>"

text \<open>
  \<^verbatim>\<open>try { .. } catch { .. } finally { .. }\<close>, given the body: the whole run, and how the
  handler ends (\<open>None\<close> when it waits for ever).
\<close>

definition try_catch_finally :: "string \<Rightarrow> aistudio option \<Rightarrow> action list \<times> outcome
    \<Rightarrow> action list \<times> completion option" where
  "try_catch_finally prefix ai body =
     (case body of
        (acts, Pending) \<Rightarrow> (acts, None)
      | (acts, Completed) \<Rightarrow> (acts @ [Do generate_finally], Some Returned)
      | (acts, Threw e) \<Rightarrow>
          (acts @ [Do (catch_step prefix ai e), Do generate_finally], Some (catch_completion e)))"

definition handleGenerate_actions :: "gen_env \<Rightarrow> string \<Rightarrow> upload option \<Rightarrow> GenerationMode
    \<Rightarrow> action list \<times> completion option" where
  "handleGenerate_actions env promptText file m =
     try_catch_finally ''Something went wrong: '' (window_aistudio env)
       (after [Do (handleGenerate_begin m)] (handleGenerate_try env promptText file m))"

text \<open>The handler run alone: how it ends, and the state it leaves or waits in.\<close>

definition handleGenerate :: "gen_env \<Rightarrow> string \<Rightarrow> upload option \<Rightarrow> GenerationMode
    \<Rightarrow> app_state \<Rightarrow> completion option \<times> app_state" where
  "handleGenerate env promptText file m s =
     (case handleGenerate_actions env promptText file m of
        (acts, co) \<Rightarrow> (co, run_alone acts s))"

subsection \<open>\<^verbatim>\<open>handleRegenerateVideo\<close>\<close>

definition handleRegenerateVideo_begin :: "app_state \<Rightarrow> app_state" where
  "handleRegenerateVideo_begin s = s\<lparr>isGenerating := True, generationMode := Video\<rparr>"

text \<open>
  The seed image is split with \<^verbatim>\<open>originalImage.split(';base64,')\<close> when it is truthy;
  on a truthy value that is not a string the call throws a \<^verbatim>\<open>TypeError\<close> (the message
  is the engine's; V8's is given). The parts only go into the request.
\<close>

definition SPLIT_TYPE_ERROR :: thrown where
  "SPLIT_TYPE_ERROR = ErrorObj ''originalCreation.originalImage.split is not a function''"

definition split_throws :: "jsval \<Rightarrow> bool" where
  "split_throws v =
     (case v of
        JBool b \<Rightarrow> b
      | JNum n \<Rightarrow> truthy (JNum n)
      | JDate d \<Rightarrow> True
      | JArr xs \<Rightarrow> True
      | JObj kvs \<Rightarrow> True
      | _ \<Rightarrow> False)"

definition handleRegenerateVideo_try :: "gen_env \<Rightarrow> string \<Rightarrow> obj \<Rightarrow> action list \<times> outcome" where
  "handleRegenerateVideo_try env newPrompt originalCreation =
     (if split_throws (get originalCreation ''originalImage'') then ([], Threw SPLIT_TYPE_ERROR)
      else video_actions env newPrompt
             (\<lambda>videoUrl.
                [''originalImage'' \<mapsto> get originalCreation ''originalImage'',
                 ''type'' \<mapsto> JStr ''video'',
                 ''id'' \<mapsto> JStr (randomUUID env),
                 ''timestamp'' \<mapsto> JDate (ValidDate (Date_now env)),
                 ''name'' \<mapsto> JStr newPrompt,
                 ''videoUrl'' \<mapsto> JStr videoUrl]))"

definition handleRegenerateVideo_actions :: "gen_env \<Rightarrow> string \<Rightarrow> obj
    \<Rightarrow> action list \<times> completion option" where
  "handleRegenerateVideo_actions env newPrompt originalCreation =
     try_catch_finally ''Something went wrong during regeneration: '' (window_aistudio env)
       (after [Do handleRegenerateVideo_begin]
          (handleRegenerateVideo_try env newPrompt originalCreation))"

definition handleRegenerateVideo :: "gen_env \<Rightarrow> string \<Rightarrow> obj \<Rightarrow> app_state
    \<Rightarrow> completion option \<times> app_state" where
  "handleRegenerateVideo env newPrompt originalCreation s =
     (case handleRegenerateVideo_actions env newPrompt originalCreation of
        (acts, co) \<Rightarrow> (co, run_alone acts s))"

subsection \<open>Reset, select, reorder\<close>

definition handleReset :: "app_state \<Rightarrow> app_state" where
  "handleReset s = s\<lparr>activeCreation := None, isGenerating := False\<rparr>"

definition handleSelectCreation :: "obj \<Rightarrow> app_state \<Rightarrow> app_state" where
  "handleSelectCreation c s = s\<lparr>activeCreation := Some c\<rparr>"

definition handleReorderHistory :: "obj list \<Rightarrow> app_state \<Rightarrow> app_state" where
  "handleReorderHistory newHistory s = s\<lparr>history := newHistory\<rparr>"

subsection \<open>\<^verbatim>\<open>handleImportFile\<close>\<close>

text \<open>The chosen file: none, or its text, which \<^verbatim>\<open>JSON.parse\<close> rejects (\<open>None\<close>) or
  parses.\<close>

datatype import_file = NoFile | FileText "parsed option"

text \<open>\<^verbatim>\<open>a === b\<close>: two primitives are compared by value, negative zero being equal to
  zero; a Date, an array or an object is equal only to itself, and is never the same
  object as a value read from another creation.\<close>

definition plus_zero :: "jsval \<Rightarrow> jsval" where
  "plus_zero v = (case v of JNum NegZero \<Rightarrow> JNum (Finite 0) | _ \<Rightarrow> v)"

definition strict_equals :: "jsval \<Rightarrow> jsval \<Rightarrow> bool" where
  "strict_equals a b =
     (case a of
        JDate d \<Rightarrow> False
      | JArr xs \<Rightarrow> False
      | JObj kvs \<Rightarrow> False
      | _ \<Rightarrow> (case b of
                JDate d \<Rightarrow> False
              | JArr xs \<Rightarrow> False
              | JObj kvs \<Rightarrow> False
              | _ \<Rightarrow> plus_zero a = plus_zero b))"

definition valid_payload :: "obj \<Rightarrow> bool" where
  "valid_payload p =
     ((truthy (get p ''html'') \<or> truthy (get p ''videoUrl''))
      \<and> truthy (get p ''name'') \<and> truthy (get p ''type''))"

definition show_alert :: "string \<Rightarrow> app_state \<Rightarrow> app_state" where
  "show_alert msg s = s\<lparr>alerts := alerts s @ [msg]\<rparr>"

definition handleImportFile :: "(jsval \<Rightarrow> jsdate) \<Rightarrow> import_file \<Rightarrow> int \<Rightarrow> string
    \<Rightarrow> app_state \<Rightarrow> app_state" where
  "handleImportFile Date_parse file now_ms fresh s =
     (case file of
        NoFile \<Rightarrow> s
      | FileText None \<Rightarrow> show_alert ''Failed to import creation.'' s
      | FileText (Some PNull) \<Rightarrow> show_alert ''Failed to import creation.'' s
      | FileText (Some PAtom) \<Rightarrow> show_alert ''Invalid creation file format.'' s
      | FileText (Some (PObject p)) \<Rightarrow>
          if valid_payload p
          then (let importedCreation = with_defaults Date_parse p now_ms fresh;
                    exists = list_ex (\<lambda>c. strict_equals (get c ''id'') (get importedCreation ''id''))
                               (history s)
                in s\<lparr>history := (if exists then history s else importedCreation # history s),
                     activeCreation := Some importedCreation\<rparr>)
          else show_alert ''Invalid creation file format.'' s)"

subsection \<open>The input area inside \<^verbatim>\<open>App\<close>\<close>

text \<open>\<^verbatim>\<open>const isFocused = !!activeCreation || isGenerating\<close>.\<close>

definition isFocused :: "app_state \<Rightarrow> bool" where
  "isFocused s = (activeCreation s \<noteq> None \<or> isGenerating s)"

text \<open>
  \<^verbatim>\<open><InputArea onGenerate={handleGenerate} isGenerating={isGenerating} disabled={isFocused} />\<close>:
  a click on the Generate button, from the component's state and the state of \<^verbatim>\<open>App\<close>,
  with no other handler running meanwhile. The result is how the handler that ran ends
  (\<open>None\<close> when it waits for ever) with the state of \<^verbatim>\<open>App\<close> it leaves or waits in, and
  the component's state.
\<close>

definition click_Generate :: "gen_env \<Rightarrow> input_area \<Rightarrow> app_state
    \<Rightarrow> (completion option \<times> app_state) \<times> input_area" where
  "click_Generate env ia s =
     (case handleGenerateClick (isGenerating s) (isFocused s) ia of
        (Ignored, ia') \<Rightarrow> ((Some Returned, s), ia')
      | (Alerted msg, ia') \<Rightarrow> ((Some Returned, show_alert msg s), ia')
      | (OnGenerate promptText file m, ia') \<Rightarrow> (handleGenerate env promptText file m s, ia'))"

subsection \<open>Updates that leave the flag alone\<close>

text \<open>An update that never changes \<^verbatim>\<open>isGenerating\<close>; an action that is such an update, or
  an \<open>Await\<close>.\<close>

definition keeps_flag :: "step \<Rightarrow> bool" where
  "keeps_flag f = (\<forall>s. isGenerating (f s) = isGenerating s)"

definition quiet :: "action \<Rightarrow> bool" where
  "quiet a = (case a of Do f \<Rightarrow> keeps_flag f | Await \<Rightarrow> True)"

section \<open>Properties of the string helpers and of \<^verbatim>\<open>bringToLife\<close>\<close>

lemma startsWith_iff: "startsWith s p \<longleftrightarrow> (\<exists>r. s = p @ r)"
  by (induction s p rule: startsWith.induct) auto

lemma startsWith_append [simp]: "startsWith (p @ r) p"
  by (simp add: startsWith_iff)

lemma startsWith_drop: "startsWith s p \<Longrightarrow> s = p @ drop (length p) s"
  by (auto simp: startsWith_iff)

lemma endsWith_iff: "endsWith s p \<longleftrightarrow> (\<exists>r. s = r @ p)"
proof -
  have "(\<exists>r. rev s = rev p @ r) \<longleftrightarrow> (\<exists>r. s = r @ p)"
  proof
    assume "\<exists>r. rev s = rev p @ r"
    then obtain r where "rev s = rev p @ r" by blast
    then have "rev (rev s) = rev (rev p @ r)" by simp
    then have "s = rev r @ p" by simp
    then show "\<exists>r. s = r @ p" by blast
  next
    assume "\<exists>r. s = r @ p"
    then obtain r where "s = r @ p" by blast
    then have "rev s = rev p @ rev r" by simp
    then show "\<exists>r. rev s = rev p @ r" by blast
  qed
  then show ?thesis by (simp add: endsWith_def startsWith_iff)
qed

lemma js_includes_iff: "js_includes s p \<longleftrightarrow> (\<exists>a b. s = a @ p @ b)"
proof (induction s)
  case Nil
  then show ?case by auto
next
  case (Cons c s)
  show ?case
  proof
    assume "js_includes (c # s) p"
    then consider "startsWith (c # s) p" | "js_includes s p" by auto
    then show "\<exists>a b. c # s = a @ p @ b"
    proof cases
      case 1
      then obtain r where "c # s = p @ r" by (auto simp: startsWith_iff)
      then have "c # s = [] @ p @ r" by simp
      then show ?thesis by blast
    next
      case 2
      then obtain a b where "s = a @ p @ b" using Cons.IH by blast
      then have "c # s = (c # a) @ p @ b" by simp
      then show ?thesis by blast
    qed
  next
    assume "\<exists>a b. c # s = a @ p @ b"
    then obtain a b where ab: "c # s = a @ p @ b" by blast
    show "js_includes (c # s) p"
    proof (cases a)
      case Nil
      with ab have "startsWith (c # s) p" by (simp add: startsWith_iff)
      then show ?thesis by simp
    next
      case (Cons x a')
      with ab have "s = a' @ p @ b" by simp
      then have "js_includes s p" using Cons.IH by blast
      then show ?thesis by simp
    qed
  qed
qed

lemma dropWhile_space_ws: "list_all is_space ws \<Longrightarrow> dropWhile is_space r = r
   \<Longrightarrow> dropWhile is_space (ws @ r) = r"
  by (induction ws) auto


lemma not_starts_of_not_includes: "\<not> js_includes s p \<Longrightarrow> \<not> startsWith s p"
proof
  assume n: "\<not> js_includes s p" and "startsWith s p"
  then obtain r where "s = p @ r" by (auto simp: startsWith_iff)
  then have "s = [] @ p @ r" by simp
  then have "js_includes s p" unfolding js_includes_iff by blast
  with n show False by simp
qed

lemma not_ends_of_not_includes: "\<not> js_includes s p \<Longrightarrow> \<not> endsWith s p"
proof
  assume n: "\<not> js_includes s p" and "endsWith s p"
  then obtain r where "s = r @ p" by (auto simp: endsWith_iff)
  then have "s = r @ p @ []" by simp
  then have "js_includes s p" unfolding js_includes_iff by blast
  with n show False by simp
qed

lemma strip_fences_unfenced:
  assumes "\<not> js_includes t fence"
  shows "strip_fences t = t"
proof -
  have a: "\<not> startsWith t fence" using assms by (rule not_starts_of_not_includes)
  have "\<not> startsWith t ''```html''"
  proof
    assume "startsWith t ''```html''"
    then obtain r where "t = ''```html'' @ r" by (auto simp: startsWith_iff)
    then have "t = fence @ (''html'' @ r)" by (simp add: fence_def)
    then have "startsWith t fence" by (simp only: startsWith_append)
    with a show False by simp
  qed
  moreover have "\<not> endsWith t fence" using assms by (rule not_ends_of_not_includes)
  ultimately show ?thesis using a
    by (simp add: strip_fences_def strip_html_fence_def strip_bare_fence_def strip_trailing_fence_def)
qed

lemma strip_trailing_fence_tail: "strip_trailing_fence (b @ fence) = b"
proof -
  have "endsWith (b @ fence) fence" unfolding endsWith_iff by blast
  then show ?thesis by (simp add: strip_trailing_fence_def) (simp add: fence_def)
qed

lemma strip_tail_fence:
  assumes "\<not> startsWith body ''`''"
  shows "strip_trailing_fence (strip_bare_fence (body @ fence)) = body"
proof (cases body)
  case Nil
  then show ?thesis
    by (simp add: strip_bare_fence_def strip_trailing_fence_def fence_def endsWith_def)
next
  case (Cons c b)
  with assms have c: "c \<noteq> CHR ''`''" by simp
  have e: "endsWith (body @ fence) fence" unfolding endsWith_iff by blast
  have "strip_bare_fence (body @ fence) = body @ fence"
    using c Cons by (simp add: strip_bare_fence_def fence_def)
  moreover have "strip_trailing_fence (body @ fence) = body"
    using e by (simp add: strip_trailing_fence_def) (simp add: fence_def)
  ultimately show ?thesis by simp
qed

lemma strip_html_fence_wrapped:
  assumes "list_all is_space ws" and "dropWhile is_space r = r"
  shows "strip_html_fence (''```html'' @ ws @ r) = r"
proof -
  have "startsWith (''```html'' @ (ws @ r)) ''```html''" by (rule startsWith_append)
  then show ?thesis using assms
    by (simp add: strip_html_fence_def dropWhile_space_ws)
qed

lemma strip_bare_fence_wrapped:
  assumes "list_all is_space ws" and "dropWhile is_space r = r"
  shows "strip_bare_fence (fence @ ws @ r) = r"
proof -
  have "startsWith (fence @ (ws @ r)) fence" by (rule startsWith_append)
  then show ?thesis using assms
    by (simp add: strip_bare_fence_def dropWhile_space_ws) (simp add: fence_def dropWhile_space_ws)
qed

lemma strip_html_fence_bare:
  assumes "\<not> startsWith r ''html''"
  shows "strip_html_fence (fence @ r) = fence @ r"
  using assms by (simp add: strip_html_fence_def fence_def)

lemma no_space_tail:
  assumes "dropWhile is_space body = body"
  shows "dropWhile is_space (body @ fence) = body @ fence"
proof (cases body)
  case Nil
  then show ?thesis by (simp add: fence_def is_space_def)
next
  case (Cons c b)
  have "\<not> is_space c"
  proof
    assume "is_space c"
    with assms Cons have "dropWhile is_space b = c # b" by simp
    then have "length (dropWhile is_space b) = Suc (length b)" by simp
    moreover have "length (dropWhile is_space b) \<le> length b" by (rule length_dropWhile_le)
    ultimately show False by simp
  qed
  then show ?thesis using Cons by simp
qed

lemma strip_fences_part: "\<exists>a b. t = a @ strip_fences t @ b"
proof -
  have suf: "\<exists>a. x = a @ dropWhile P (drop n x)" for x :: string and P n
  proof -
    have "x = take n x @ takeWhile P (drop n x) @ dropWhile P (drop n x)" by simp
    then have "x = (take n x @ takeWhile P (drop n x)) @ dropWhile P (drop n x)" by simp
    then show ?thesis by blast
  qed
  obtain a1 where 1: "t = a1 @ strip_html_fence t"
    using suf[of t is_space 7] by (cases "startsWith t ''```html''") (auto simp: strip_html_fence_def)
  obtain a2 where 2: "strip_html_fence t = a2 @ strip_bare_fence (strip_html_fence t)"
    using suf[of "strip_html_fence t" is_space 3]
    by (cases "startsWith (strip_html_fence t) fence") (auto simp: strip_bare_fence_def)
  obtain b where 3: "strip_bare_fence (strip_html_fence t) = strip_fences t @ b"
  proof -
    let ?u = "strip_bare_fence (strip_html_fence t)"
    have "\<exists>b. ?u = take (length ?u - 3) ?u @ b" by (metis append_take_drop_id)
    then have "\<exists>b. ?u = strip_fences t @ b"
      by (cases "endsWith ?u fence") (auto simp: strip_fences_def strip_trailing_fence_def)
    then show ?thesis using that by blast
  qed
  have "t = (a1 @ a2) @ strip_fences t @ b" using 1 2 3 by (metis append.assoc)
  then show ?thesis by blast
qed


lemma startsWith_append_cases:
  "startsWith (x @ y) p \<Longrightarrow> \<not> startsWith x p \<Longrightarrow> \<exists>p2. p = x @ p2 \<and> p2 \<noteq> [] \<and> startsWith y p2"
  by (induction x p rule: startsWith.induct) auto

lemma not_html_before_fence:
  assumes "\<not> startsWith x ''html''"
  shows "\<not> startsWith (x @ fence) ''html''"
proof
  assume "startsWith (x @ fence) ''html''"
  then obtain p2 where p: "''html'' = x @ p2" and ne: "p2 \<noteq> []" and st: "startsWith fence p2"
    using assms startsWith_append_cases by blast
  from ne st have "hd p2 = CHR ''`''" by (cases p2) (simp_all add: fence_def)
  with ne have "CHR ''`'' \<in> set p2" by (cases p2) auto
  then have "CHR ''`'' \<in> set (x @ p2)" by simp
  then have "CHR ''`'' \<in> set ''html''" using p by simp
  then show False by simp
qed

lemma space_run:
  "\<exists>w. list_all is_space w \<and> r = w @ dropWhile is_space r
     \<and> dropWhile is_space (dropWhile is_space r) = dropWhile is_space r"
proof -
  have "list_all is_space (takeWhile is_space r)"
    by (simp add: list_all_iff) (meson set_takeWhileD)
  moreover have "r = takeWhile is_space r @ dropWhile is_space r" by simp
  ultimately show ?thesis by (metis dropWhile_idem)
qed

lemma strip_html_fence_shape:
  assumes "startsWith t ''```html''"
  shows "\<exists>w. list_all is_space w \<and> t = ''```html'' @ w @ strip_html_fence t
           \<and> dropWhile is_space (strip_html_fence t) = strip_html_fence t"
proof -
  from assms obtain r where t: "t = ''```html'' @ r" by (auto simp: startsWith_iff)
  then have s: "strip_html_fence t = dropWhile is_space r"
    using assms by (simp add: strip_html_fence_def)
  obtain w where "list_all is_space w" "r = w @ dropWhile is_space r"
    "dropWhile is_space (dropWhile is_space r) = dropWhile is_space r"
    using space_run by blast
  then show ?thesis using t s by auto
qed

lemma strip_bare_fence_shape:
  assumes "startsWith t fence"
  shows "\<exists>w. list_all is_space w \<and> t = fence @ w @ strip_bare_fence t
           \<and> dropWhile is_space (strip_bare_fence t) = strip_bare_fence t"
proof -
  from assms obtain r where t: "t = fence @ r" by (auto simp: startsWith_iff)
  then have "drop 3 t = r" by (simp add: fence_def)
  then have s: "strip_bare_fence t = dropWhile is_space r"
    using assms by (simp add: strip_bare_fence_def)
  obtain w where "list_all is_space w" "r = w @ dropWhile is_space r"
    "dropWhile is_space (dropWhile is_space r) = dropWhile is_space r"
    using space_run by blast
  then show ?thesis using t s by auto
qed

lemma strip_trailing_fence_shape:
  "\<exists>b. u = strip_trailing_fence u @ b \<and> (b = fence \<or> b = []) \<and> (b = fence \<longleftrightarrow> endsWith u fence)"
proof (cases "endsWith u fence")
  case True
  then obtain r where "u = r @ fence" by (auto simp: endsWith_iff)
  then have "strip_trailing_fence u = r" by (simp add: strip_trailing_fence_tail)
  then show ?thesis using True \<open>u = r @ fence\<close> by auto
next
  case False
  then have "strip_trailing_fence u = u" by (simp add: strip_trailing_fence_def)
  then show ?thesis using False by (auto simp: fence_def)
qed

lemma html_fence_is_fence: "startsWith t ''```html'' \<Longrightarrow> startsWith t fence"
proof -
  assume "startsWith t ''```html''"
  then obtain r where "t = ''```html'' @ r" by (auto simp: startsWith_iff)
  then have "t = fence @ (''html'' @ r)" by (simp add: fence_def)
  then show ?thesis by (simp only: startsWith_append)
qed

lemma strip_fences_shape:
  "\<exists>a b. t = a @ strip_fences t @ b
     \<and> (b = fence \<or> b = []) \<and> (b = fence \<longleftrightarrow> endsWith (strip_fences t @ b) fence)
     \<and> ((\<not> startsWith t fence \<and> a = [])
        \<or> (startsWith t ''```html''
             \<and> (\<exists>w. list_all is_space w \<and> a = ''```html'' @ w)
             \<and> dropWhile is_space (strip_fences t @ b) = strip_fences t @ b
             \<and> \<not> startsWith (strip_fences t @ b) fence)
        \<or> (startsWith t ''```html''
             \<and> (\<exists>w w'. list_all is_space w \<and> list_all is_space w'
                       \<and> a = ''```html'' @ w @ fence @ w')
             \<and> dropWhile is_space (strip_fences t @ b) = strip_fences t @ b)
        \<or> (startsWith t fence \<and> \<not> startsWith t ''```html''
             \<and> (\<exists>w. list_all is_space w \<and> a = fence @ w)
             \<and> dropWhile is_space (strip_fences t @ b) = strip_fences t @ b))"
proof -
  let ?t1 = "strip_html_fence t"
  let ?t2 = "strip_bare_fence ?t1"
  obtain b where b: "?t2 = strip_fences t @ b" "b = fence \<or> b = []"
    "b = fence \<longleftrightarrow> endsWith ?t2 fence"
    using strip_trailing_fence_shape[of ?t2] by (auto simp: strip_fences_def)
  consider (none) "\<not> startsWith t fence"
    | (html2) "startsWith t ''```html''" "startsWith ?t1 fence"
    | (html1) "startsWith t ''```html''" "\<not> startsWith ?t1 fence"
    | (bare) "startsWith t fence" "\<not> startsWith t ''```html''"
    by blast
  then show ?thesis
  proof cases
    case none
    then have "\<not> startsWith t ''```html''" using html_fence_is_fence by blast
    then have "?t1 = t" by (simp add: strip_html_fence_def)
    then have "?t2 = t" using none by (simp add: strip_bare_fence_def)
    then have "t = [] @ strip_fences t @ b" using b(1) by simp
    then show ?thesis using b none by (metis \<open>?t2 = t\<close>)
  next
    case html2
    obtain w where w: "list_all is_space w" "t = ''```html'' @ w @ ?t1"
      using strip_html_fence_shape[OF html2(1)] by blast
    obtain w' where w': "list_all is_space w'" "?t1 = fence @ w' @ ?t2"
      "dropWhile is_space ?t2 = ?t2"
      using strip_bare_fence_shape[OF html2(2)] by blast
    have "t = (''```html'' @ w @ fence @ w') @ strip_fences t @ b"
      using w(2) w'(2) b(1) by (metis append.assoc)
    then show ?thesis using b w(1) w'(1) w'(3) html2(1) by (metis (no_types, lifting))
  next
    case html1
    obtain w where w: "list_all is_space w" "t = ''```html'' @ w @ ?t1"
      "dropWhile is_space ?t1 = ?t1"
      using strip_html_fence_shape[OF html1(1)] by blast
    have e: "?t2 = ?t1" using html1(2) by (simp add: strip_bare_fence_def)
    have "t = (''```html'' @ w) @ strip_fences t @ b"
      using w(2) e b(1) by (metis append.assoc)
    then show ?thesis using b w(1) w(3) e html1 by (metis (no_types, lifting))
  next
    case bare
    then have e: "?t1 = t" by (simp add: strip_html_fence_def)
    obtain w where w: "list_all is_space w" "t = fence @ w @ ?t2"
      "dropWhile is_space ?t2 = ?t2"
      using strip_bare_fence_shape[of t] bare(1) e by auto
    have "t = (fence @ w) @ strip_fences t @ b"
      using w(2) b(1) by (metis append.assoc)
    then show ?thesis using b w(1) w(3) bare by (metis (no_types, lifting))
  qed
qed

lemma closing_fence_kept:
  assumes ws: "list_all is_space ws" and ws': "list_all is_space ws'" and ne': "ws' \<noteq> []"
    and body: "body \<noteq> []" and cs: "dropWhile is_space body = body"
    and nb: "\<not> startsWith body ''`''"
  shows "strip_fences (''```html'' @ ws @ body @ fence @ ws') = body @ fence @ ws'"
proof -
  obtain c b where cb: "body = c # b" using body by (cases body) auto
  with cs have nsp: "\<not> is_space c"
  proof -
    have "\<not> is_space c"
    proof
      assume "is_space c"
      with cs cb have "dropWhile is_space b = c # b" by simp
      then have "length (dropWhile is_space b) = Suc (length b)" by simp
      moreover have "length (dropWhile is_space b) \<le> length b" by (rule length_dropWhile_le)
      ultimately show False by simp
    qed
    then show ?thesis .
  qed
  from nb cb have c: "c \<noteq> CHR ''`''" by simp
  let ?r = "body @ fence @ ws'"
  have dr: "dropWhile is_space ?r = ?r" using cb nsp by simp
  have 1: "strip_html_fence (''```html'' @ ws @ ?r) = ?r"
    using ws dr by (rule strip_html_fence_wrapped)
  have 2: "strip_bare_fence ?r = ?r" using cb c by (simp add: strip_bare_fence_def fence_def)
  have "\<not> endsWith ?r fence"
  proof
    assume "endsWith ?r fence"
    then obtain r where "?r = r @ fence" by (auto simp: endsWith_iff)
    then have "last ?r = last (r @ fence)" by simp
    then have "last ?r = CHR ''`''" by (simp add: fence_def)
    moreover have "last ?r = last ws'" using ne' by simp
    moreover have "is_space (last ws')" using ws' ne' by (simp add: list_all_iff)
    ultimately show False by (simp add: is_space_def)
  qed
  then have 3: "strip_trailing_fence ?r = ?r" by (simp add: strip_trailing_fence_def)
  show ?thesis using 1 2 3 by (simp add: strip_fences_def)
qed

lemma bringToLife_text: "t \<noteq> [] \<Longrightarrow> bringToLife (Inr (Some t)) = Inr (strip_fences t)"
  by (simp add: bringToLife_def text_or_placeholder_def)

text \<open>
  Claim C3, as amended. The claim says that every leading or trailing fence is removed and
  that the result of a response with a leading fence never contains the marker. What
  \<^verbatim>\<open>bringToLife\<close> does with a non-empty text: the result is the text without a leading
  part \<open>a\<close> and a trailing part \<open>b\<close>. The part \<open>b\<close> is the marker when what is left after
  \<open>a\<close> ends with the marker, and empty otherwise. The part \<open>a\<close> is empty when the text does
  not start with the marker; when the text starts with \<^verbatim>\<open>```html\<close> it is \<^verbatim>\<open>```html\<close> and
  all the white space after it, and, when the rest then starts with the marker, that marker
  and all the white space after it as well; when the text starts with the marker but not
  with \<^verbatim>\<open>```html\<close> it is the marker and all the white space after it. So a fence is removed
  at the very start and at the very end of the text only, and nothing is added. Then, for a
  body that holds no marker: it is returned unchanged; when it does not begin with white
  space or a backtick, it is what is returned for the body wrapped in \<^verbatim>\<open>```html\<close>, white
  space and an optional closing marker, for the body followed by the marker, and (when
  white space and body do not begin with \<^verbatim>\<open>html\<close>) for the body wrapped in the bare marker,
  white space and an optional closing marker. A closing marker that is followed by white
  space is kept.
\<close>

theorem bringToLife_strips_wrapper:
  "(t \<noteq> [] \<longrightarrow>
      (\<exists>a b out. bringToLife (Inr (Some t)) = Inr out \<and> t = a @ out @ b
         \<and> (b = fence \<or> b = []) \<and> (b = fence \<longleftrightarrow> endsWith (out @ b) fence)
         \<and> ((\<not> startsWith t fence \<and> a = [])
            \<or> (startsWith t ''```html''
                 \<and> (\<exists>w. list_all is_space w \<and> a = ''```html'' @ w)
                 \<and> dropWhile is_space (out @ b) = out @ b
                 \<and> \<not> startsWith (out @ b) fence)
            \<or> (startsWith t ''```html''
                 \<and> (\<exists>w w'. list_all is_space w \<and> list_all is_space w'
                           \<and> a = ''```html'' @ w @ fence @ w')
                 \<and> dropWhile is_space (out @ b) = out @ b)
            \<or> (startsWith t fence \<and> \<not> startsWith t ''```html''
                 \<and> (\<exists>w. list_all is_space w \<and> a = fence @ w)
                 \<and> dropWhile is_space (out @ b) = out @ b))))
   \<and> (\<not> js_includes body fence \<longrightarrow>
        (body \<noteq> [] \<longrightarrow> bringToLife (Inr (Some body)) = Inr body)
      \<and> (list_all is_space ws \<and> dropWhile is_space body = body \<and> \<not> startsWith body ''`'' \<longrightarrow>
            bringToLife (Inr (Some (''```html'' @ ws @ body))) = Inr body
          \<and> bringToLife (Inr (Some (''```html'' @ ws @ body @ fence))) = Inr body
          \<and> bringToLife (Inr (Some (body @ fence))) = Inr body
          \<and> (\<not> startsWith (ws @ body) ''html'' \<longrightarrow>
                bringToLife (Inr (Some (fence @ ws @ body))) = Inr body
              \<and> bringToLife (Inr (Some (fence @ ws @ body @ fence))) = Inr body)))
   \<and> (list_all is_space ws \<and> list_all is_space ws' \<and> ws' \<noteq> [] \<and> body \<noteq> []
        \<and> dropWhile is_space body = body \<and> \<not> startsWith body ''`'' \<longrightarrow>
        bringToLife (Inr (Some (''```html'' @ ws @ body @ fence @ ws')))
          = Inr (body @ fence @ ws'))"
proof (intro conjI impI)
  assume "t \<noteq> []"
  then have "bringToLife (Inr (Some t)) = Inr (strip_fences t)" by (rule bringToLife_text)
  then show "\<exists>a b out. bringToLife (Inr (Some t)) = Inr out \<and> t = a @ out @ b
         \<and> (b = fence \<or> b = []) \<and> (b = fence \<longleftrightarrow> endsWith (out @ b) fence)
         \<and> ((\<not> startsWith t fence \<and> a = [])
            \<or> (startsWith t ''```html''
                 \<and> (\<exists>w. list_all is_space w \<and> a = ''```html'' @ w)
                 \<and> dropWhile is_space (out @ b) = out @ b
                 \<and> \<not> startsWith (out @ b) fence)
            \<or> (startsWith t ''```html''
                 \<and> (\<exists>w w'. list_all is_space w \<and> list_all is_space w'
                           \<and> a = ''```html'' @ w @ fence @ w')
                 \<and> dropWhile is_space (out @ b) = out @ b)
            \<or> (startsWith t fence \<and> \<not> startsWith t ''```html''
                 \<and> (\<exists>w. list_all is_space w \<and> a = fence @ w)
                 \<and> dropWhile is_space (out @ b) = out @ b))"
    using strip_fences_shape[of t] by simp
next
  assume "list_all is_space ws \<and> list_all is_space ws' \<and> ws' \<noteq> [] \<and> body \<noteq> []
        \<and> dropWhile is_space body = body \<and> \<not> startsWith body ''`''"
  then have "strip_fences (''```html'' @ ws @ body @ fence @ ws') = body @ fence @ ws'"
    using closing_fence_kept by blast
  then show "bringToLife (Inr (Some (''```html'' @ ws @ body @ fence @ ws')))
          = Inr (body @ fence @ ws')"
    by (simp add: bringToLife_text)
next
  assume nf: "\<not> js_includes body fence" and "body \<noteq> []"
  then show "bringToLife (Inr (Some body)) = Inr body"
    by (simp add: bringToLife_text strip_fences_unfenced)
next
  assume nf: "\<not> js_includes body fence"
  assume h: "list_all is_space ws \<and> dropWhile is_space body = body \<and> \<not> startsWith body ''`''"
  then have ws: "list_all is_space ws" and cs: "dropWhile is_space body = body"
    and nb: "\<not> startsWith body ''`''" by simp_all
  have sb: "strip_bare_fence body = body"
    using not_starts_of_not_includes[OF nf] by (simp add: strip_bare_fence_def)
  have st: "strip_trailing_fence body = body"
    using not_ends_of_not_includes[OF nf] by (simp add: strip_trailing_fence_def)
  have body: "strip_trailing_fence (strip_bare_fence body) = body"
    by (simp add: sb st)
  have tail': "strip_trailing_fence (body @ fence) = body"
    by (rule strip_trailing_fence_tail)
  have tail: "strip_trailing_fence (strip_bare_fence (body @ fence)) = body"
    using nb by (rule strip_tail_fence)
  have cs': "dropWhile is_space (body @ fence) = body @ fence" using cs by (rule no_space_tail)
  show "bringToLife (Inr (Some (''```html'' @ ws @ body))) = Inr body"
    using strip_html_fence_wrapped[OF ws cs] body
    by (simp add: bringToLife_text strip_fences_def)
  show "bringToLife (Inr (Some (''```html'' @ ws @ body @ fence))) = Inr body"
    using strip_html_fence_wrapped[OF ws cs'] tail
    by (simp add: bringToLife_text strip_fences_def)
  show "bringToLife (Inr (Some (body @ fence))) = Inr body"
  proof -
    have "\<not> startsWith (body @ fence) ''```html''"
      using nb by (cases body) (simp_all add: fence_def)
    then have "strip_html_fence (body @ fence) = body @ fence" by (simp add: strip_html_fence_def)
    then show ?thesis using tail by (simp add: bringToLife_text strip_fences_def fence_def)
  qed
  {
    assume nh: "\<not> startsWith (ws @ body) ''html''"
    then have nh': "\<not> startsWith (ws @ body @ fence) ''html''"
      using not_html_before_fence[of "ws @ body"] by simp
    show "bringToLife (Inr (Some (fence @ ws @ body))) = Inr body"
      using strip_html_fence_bare[OF nh] strip_bare_fence_wrapped[OF ws cs] st
      by (simp add: bringToLife_text strip_fences_def fence_def)
    show "bringToLife (Inr (Some (fence @ ws @ body @ fence))) = Inr body"
      using strip_html_fence_bare[OF nh'] strip_bare_fence_wrapped[OF ws cs'] tail'
      by (simp add: bringToLife_text strip_fences_def fence_def)
  }
qed

text \<open>
  The theorem at the body \<^verbatim>\<open><p>hi</p>\<close>: bare, in three wrappers that end with the marker,
  and in the wrapper whose closing marker is followed by a line break.
\<close>

theorem bringToLife_strips_wrapper_witness:
  "\<not> js_includes ''<p>hi</p>'' fence
   \<and> bringToLife (Inr (Some ''<p>hi</p>'')) = Inr ''<p>hi</p>''
   \<and> bringToLife (Inr (Some ''```html\<newline><p>hi</p>'')) = Inr ''<p>hi</p>''
   \<and> bringToLife (Inr (Some ''```html\<newline><p>hi</p>```'')) = Inr ''<p>hi</p>''
   \<and> bringToLife (Inr (Some ''```\<newline><p>hi</p>```'')) = Inr ''<p>hi</p>''
   \<and> bringToLife (Inr (Some ''```html\<newline><p>hi</p>```\<newline>'')) = Inr ''<p>hi</p>```\<newline>''
   \<and> (\<exists>a b out. bringToLife (Inr (Some ''```html\<newline><p>hi</p>```\<newline>'')) = Inr out
         \<and> ''```html\<newline><p>hi</p>```\<newline>'' = a @ out @ b \<and> (b = fence \<or> b = []))"
proof -
  have nf: "\<not> js_includes ''<p>hi</p>'' fence" by (simp add: fence_def)
  have ws: "list_all is_space ''\<newline>''" by (simp add: is_space_def)
  have ne: "''```html\<newline><p>hi</p>```\<newline>'' \<noteq> []" by simp
  note inst = bringToLife_strips_wrapper[where body = "''<p>hi</p>''" and ws = "''\<newline>''"
      and ws' = "''\<newline>''" and t = "''```html\<newline><p>hi</p>```\<newline>''"]
  from inst ne have "\<exists>a b out. bringToLife (Inr (Some ''```html\<newline><p>hi</p>```\<newline>'')) = Inr out
         \<and> ''```html\<newline><p>hi</p>```\<newline>'' = a @ out @ b \<and> (b = fence \<or> b = [])"
    by blast
  then show ?thesis
    using nf ws inst by (simp add: fence_def is_space_def)
qed

text \<open>
  Claim C3 as stated fails: each pattern is applied once, so of two fences at the start
  only the first is removed, and the result of this response, which has a leading fence
  marker, still begins with one.
\<close>

theorem bringToLife_fence_counterexample:
  "startsWith ''```\<newline>```html\<newline><p>hi</p>'' fence
   \<and> bringToLife (Inr (Some ''```\<newline>```html\<newline><p>hi</p>'')) = Inr ''```html\<newline><p>hi</p>''
   \<and> startsWith ''```html\<newline><p>hi</p>'' fence
   \<and> js_includes ''```html\<newline><p>hi</p>'' fence"
  by (simp add: bringToLife_def text_or_placeholder_def strip_fences_def strip_html_fence_def
      strip_bare_fence_def strip_trailing_fence_def endsWith_def fence_def is_space_def)

text \<open>
  Claim C10: when the response has no text (\<^verbatim>\<open>response.text\<close> undefined or empty),
  \<^verbatim>\<open>bringToLife\<close> returns the placeholder document as its result; it does not throw.
\<close>

theorem bringToLife_no_text_placeholder:
  "bringToLife (Inr None) = Inr ''<!-- Failed to generate content -->''
   \<and> bringToLife (Inr (Some [])) = Inr ''<!-- Failed to generate content -->''"
  by (simp add: bringToLife_def text_or_placeholder_def FAILED_PLACEHOLDER_def strip_fences_def
      strip_html_fence_def strip_bare_fence_def strip_trailing_fence_def endsWith_def fence_def)

section \<open>Properties of \<^verbatim>\<open>bringToLifeAsVideo\<close>\<close>

lemma poll_stops_done:
  "poll opn rs ds = Some (Inr opn', ds') \<Longrightarrow> op_done opn'"
proof (induction rs arbitrary: opn ds)
  case Nil
  then show ?case by (simp split: if_splits)
next
  case (Cons r rs)
  show ?case
  proof (cases "op_done opn")
    case True
    with Cons.prems show ?thesis by simp
  next
    case False
    with Cons.prems Cons.IH show ?thesis by (cases r) auto
  qed
qed

lemma poll_done: "op_done opn \<Longrightarrow> poll opn rs ds = Some (Inr opn, ds)"
  by (cases rs) simp_all

lemma polled_operation_done: "polled_operation env = Some opn \<Longrightarrow> op_done opn"
  by (auto simp: polled_operation_def split: sum.splits option.splits prod.splits dest: poll_stops_done)

lemma polled_operation_try:
  "polled_operation env = Some opn \<Longrightarrow> \<exists>ds. video_try env = Some (after_poll env opn, ds)"
  by (auto simp: polled_operation_def video_try_def split: sum.splits option.splits prod.splits)

lemma try_success_polled:
  "video_try env = Some (Inr url, ds) \<Longrightarrow>
   \<exists>opn. polled_operation env = Some opn \<and> after_poll env opn = Inr url"
  by (auto simp: polled_operation_def video_try_def split: sum.splits option.splits prod.splits)

lemma after_poll_success:
  "after_poll env opn = Inr url \<Longrightarrow> \<not> is_failed opn \<and> (\<exists>u. op_uri opn = Some u \<and> u \<noteq> [])"
  by (auto simp: after_poll_def downloadLink_def split: if_splits option.splits sum.splits)

lemma no_link_not_entity: "\<not> entity_not_found (ErrorObj NO_LINK_MESSAGE)"
  by (simp add: entity_not_found_def NO_LINK_MESSAGE_def ENTITY_NOT_FOUND_def)

lemma video_success_try:
  "bringToLifeAsVideo env = Some (Inr url, ds) \<Longrightarrow> video_try env = Some (Inr url, ds)"
  by (auto simp: bringToLifeAsVideo_def split: option.splits sum.splits prod.splits)


text \<open>
  Claim C1: \<^verbatim>\<open>bringToLifeAsVideo\<close> returns a video only when the loop stopped on an
  operation that is done, is not in the failed state and carries a non-empty download URI;
  when the loop stops on an operation that is done and not failed but has no download
  URI, it throws the error \<^verbatim>\<open>Video generation succeeded, but no download link was found.\<close>;
  and whenever the loop stops on an operation without a download URI, failed or not, the
  function throws and returns nothing.
\<close>

theorem video_done_needs_link:
  "(bringToLifeAsVideo env = Some (Inr url, ds) \<longrightarrow>
      (\<exists>opn u. polled_operation env = Some opn \<and> op_done opn \<and> \<not> is_failed opn
               \<and> op_uri opn = Some u \<and> u \<noteq> []))
   \<and> (polled_operation env = Some opn \<and> \<not> is_failed opn \<and> downloadLink opn = None \<longrightarrow>
        op_done opn
        \<and> (\<exists>ds. bringToLifeAsVideo env = Some (Inl (ErrorObj NO_LINK_MESSAGE), ds)))
   \<and> (polled_operation env = Some opn \<and> downloadLink opn = None \<longrightarrow>
        (\<exists>e ds. bringToLifeAsVideo env = Some (Inl e, ds)))"
proof (intro conjI impI)
  assume h: "polled_operation env = Some opn \<and> downloadLink opn = None"
  then obtain ds where t: "video_try env = Some (after_poll env opn, ds)"
    using polled_operation_try by blast
  from h have "\<exists>e. after_poll env opn = Inl e" by (simp add: after_poll_def)
  then obtain e where "after_poll env opn = Inl e" by blast
  with t have "bringToLifeAsVideo env = Some (Inl (video_catch e), ds)"
    by (simp add: bringToLifeAsVideo_def)
  then show "\<exists>e ds. bringToLifeAsVideo env = Some (Inl e, ds)" by blast
next
  assume "bringToLifeAsVideo env = Some (Inr url, ds)"
  then have "video_try env = Some (Inr url, ds)" by (rule video_success_try)
  then obtain opn where p: "polled_operation env = Some opn" and a: "after_poll env opn = Inr url"
    using try_success_polled by blast
  from a obtain u where "\<not> is_failed opn" "op_uri opn = Some u" "u \<noteq> []"
    using after_poll_success by blast
  with p polled_operation_done[OF p]
  show "\<exists>opn u. polled_operation env = Some opn \<and> op_done opn \<and> \<not> is_failed opn
               \<and> op_uri opn = Some u \<and> u \<noteq> []" by blast
next
  assume h: "polled_operation env = Some opn \<and> \<not> is_failed opn \<and> downloadLink opn = None"
  then show "op_done opn" using polled_operation_done by blast
next
  assume h: "polled_operation env = Some opn \<and> \<not> is_failed opn \<and> downloadLink opn = None"
  then have "after_poll env opn = Inl (ErrorObj NO_LINK_MESSAGE)" by (simp add: after_poll_def)
  moreover obtain ds where "video_try env = Some (after_poll env opn, ds)"
    using h polled_operation_try by blast
  ultimately have "bringToLifeAsVideo env = Some (Inl (ErrorObj NO_LINK_MESSAGE), ds)"
    using no_link_not_entity by (simp add: bringToLifeAsVideo_def video_catch_def)
  then show "\<exists>ds. bringToLifeAsVideo env = Some (Inl (ErrorObj NO_LINK_MESSAGE), ds)" by blast
qed


text \<open>The theorem at a run that downloads a video, and at one that ends without a link.\<close>

theorem video_done_needs_link_witness:
  "bringToLifeAsVideo
     \<lparr>generateVideos = Inr \<lparr>op_done = True, op_status = None, op_uri = Some ''https://v/1?alt=media''\<rparr>,
      getVideosOperation = [],
      fetch_video = (\<lambda>u. Inr \<lparr>res_ok = True, res_statusText = ''OK'', res_objectUrl = Inr ''blob:1''\<rparr>),
      API_KEY = ''k''\<rparr> = Some (Inr ''blob:1'', [])
   \<and> polled_operation
     \<lparr>generateVideos = Inr \<lparr>op_done = True, op_status = None, op_uri = Some ''https://v/1?alt=media''\<rparr>,
      getVideosOperation = [],
      fetch_video = (\<lambda>u. Inr \<lparr>res_ok = True, res_statusText = ''OK'', res_objectUrl = Inr ''blob:1''\<rparr>),
      API_KEY = ''k''\<rparr> = Some \<lparr>op_done = True, op_status = None, op_uri = Some ''https://v/1?alt=media''\<rparr>
   \<and> (\<exists>ds. bringToLifeAsVideo
     \<lparr>generateVideos = Inr \<lparr>op_done = False, op_status = None, op_uri = None\<rparr>,
      getVideosOperation = [Inr \<lparr>op_done = True, op_status = None, op_uri = None\<rparr>],
      fetch_video = (\<lambda>u. Inl Nullish),
      API_KEY = ''k''\<rparr> = Some (Inl (ErrorObj NO_LINK_MESSAGE), ds))"
proof -
  let ?e1 = "\<lparr>generateVideos = Inr \<lparr>op_done = True, op_status = None, op_uri = Some ''https://v/1?alt=media''\<rparr>,
      getVideosOperation = [],
      fetch_video = (\<lambda>u. Inr \<lparr>res_ok = True, res_statusText = ''OK'', res_objectUrl = Inr ''blob:1''\<rparr>),
      API_KEY = ''k''\<rparr>"
  let ?e2 = "\<lparr>generateVideos = Inr \<lparr>op_done = False, op_status = None, op_uri = None\<rparr>,
      getVideosOperation = [Inr \<lparr>op_done = True, op_status = None, op_uri = None\<rparr>],
      fetch_video = (\<lambda>u. Inl Nullish),
      API_KEY = ''k''\<rparr>"
  let ?o2 = "\<lparr>op_done = True, op_status = None, op_uri = None\<rparr>"
  have r1: "bringToLifeAsVideo ?e1 = Some (Inr ''blob:1'', [])"
    by (simp add: bringToLifeAsVideo_def video_try_def after_poll_def is_failed_def downloadLink_def)
  have p1: "polled_operation ?e1 = Some \<lparr>op_done = True, op_status = None, op_uri = Some ''https://v/1?alt=media''\<rparr>"
    by (simp add: polled_operation_def)
  have p2: "polled_operation ?e2 = Some ?o2 \<and> \<not> is_failed ?o2 \<and> downloadLink ?o2 = None"
    by (simp add: polled_operation_def is_failed_def downloadLink_def)
  show ?thesis
    using r1 p1 p2 video_done_needs_link[of ?e1 "''blob:1''" "[]" ?o2]
      video_done_needs_link[of ?e2 "''x''" "[]" ?o2]
    by simp
qed

text \<open>
  Claim C8: when the operation is pending after the submission and after the first
  re-check, and the second re-check reports the failed state with the message
  \<^verbatim>\<open>quota\<close>, the run ends with the error \<^verbatim>\<open>Video generation failed: quota\<close> after
  exactly two delays of 10000 ms.
\<close>

theorem poller_pending_pending_failed:
  "bringToLifeAsVideo
     \<lparr>generateVideos = Inr \<lparr>op_done = False, op_status = st0, op_uri = u0\<rparr>,
      getVideosOperation =
        Inr \<lparr>op_done = False, op_status = st1, op_uri = u1\<rparr>
        # Inr \<lparr>op_done = True,
               op_status = Some \<lparr>st_state = Some ''FAILED'', st_error_message = Some ''quota''\<rparr>,
               op_uri = u2\<rparr>
        # later,
      fetch_video = f,
      API_KEY = k\<rparr>
   = Some (Inl (ErrorObj ''Video generation failed: quota''), [10000, 10000])"
  by (simp add: bringToLifeAsVideo_def video_try_def after_poll_def is_failed_def poll_done
      failure_message_def video_catch_def entity_not_found_def ENTITY_NOT_FOUND_def POLL_DELAY_MS_def)

text \<open>
  Claim C4, as amended. The claim says that only the transport's entity-not-found error
  becomes the credential error. The \<^verbatim>\<open>catch\<close> clause goes by the message of whatever was
  thrown in the body: a failure of \<^verbatim>\<open>generateVideos\<close> or of a re-check is re-thrown as
  the credential error exactly when it is an \<^verbatim>\<open>Error\<close> whose message contains
  \<^verbatim>\<open>Requested entity was not found.\<close>, and propagates unchanged otherwise; the same test
  is applied to the job-failure error the function raises itself; and a credential error
  leaves the function only for a thrown value that passes the test or already is that
  error.
\<close>

theorem video_catch_by_message:
  "(generateVideos env = Inl e \<longrightarrow>
      bringToLifeAsVideo env = Some (Inl (if entity_not_found e then API_KEY_ERROR else e), []))
   \<and> (generateVideos env = Inr op0 \<and> poll op0 (getVideosOperation env) [] = Some (Inl e, ds) \<longrightarrow>
      bringToLifeAsVideo env = Some (Inl (if entity_not_found e then API_KEY_ERROR else e), ds))
   \<and> (polled_operation env = Some opn \<and> is_failed opn \<longrightarrow>
      (\<exists>ds. bringToLifeAsVideo env =
         Some (Inl (if js_includes (failure_message opn) ENTITY_NOT_FOUND then API_KEY_ERROR
                    else ErrorObj (failure_message opn)), ds)))
   \<and> (bringToLifeAsVideo env = Some (Inl API_KEY_ERROR, ds) \<longrightarrow>
      (\<exists>e. video_try env = Some (Inl e, ds) \<and> (entity_not_found e \<or> e = API_KEY_ERROR)))"
proof (intro conjI impI)
  assume "generateVideos env = Inl e"
  then show "bringToLifeAsVideo env = Some (Inl (if entity_not_found e then API_KEY_ERROR else e), [])"
    by (simp add: bringToLifeAsVideo_def video_try_def video_catch_def)
next
  assume "generateVideos env = Inr op0 \<and> poll op0 (getVideosOperation env) [] = Some (Inl e, ds)"
  then show "bringToLifeAsVideo env = Some (Inl (if entity_not_found e then API_KEY_ERROR else e), ds)"
    by (simp add: bringToLifeAsVideo_def video_try_def video_catch_def)
next
  assume h: "polled_operation env = Some opn \<and> is_failed opn"
  then obtain ds where "video_try env = Some (after_poll env opn, ds)"
    using polled_operation_try by blast
  moreover have "after_poll env opn = Inl (ErrorObj (failure_message opn))"
    using h by (simp add: after_poll_def)
  ultimately have "bringToLifeAsVideo env =
         Some (Inl (if js_includes (failure_message opn) ENTITY_NOT_FOUND then API_KEY_ERROR
                    else ErrorObj (failure_message opn)), ds)"
    by (simp add: bringToLifeAsVideo_def video_catch_def entity_not_found_def)
  then show "\<exists>ds. bringToLifeAsVideo env =
         Some (Inl (if js_includes (failure_message opn) ENTITY_NOT_FOUND then API_KEY_ERROR
                    else ErrorObj (failure_message opn)), ds)" by blast
next
  assume "bringToLifeAsVideo env = Some (Inl API_KEY_ERROR, ds)"
  then show "\<exists>e. video_try env = Some (Inl e, ds) \<and> (entity_not_found e \<or> e = API_KEY_ERROR)"
    by (auto simp: bringToLifeAsVideo_def video_catch_def split: option.splits sum.splits prod.splits if_splits)
qed

text \<open>The theorem at a submission that fails with the entity-not-found error, and at a
  re-check that fails with another error.\<close>

theorem video_catch_by_message_witness:
  "bringToLifeAsVideo
     \<lparr>generateVideos = Inl (ErrorObj ''404 NOT_FOUND: Requested entity was not found.''),
      getVideosOperation = [], fetch_video = (\<lambda>u. Inl Nullish), API_KEY = ''k''\<rparr>
     = Some (Inl (ErrorObj ''API key not found. Please re-select your API key and try again.''), [])
   \<and> bringToLifeAsVideo
     \<lparr>generateVideos = Inr \<lparr>op_done = False, op_status = None, op_uri = None\<rparr>,
      getVideosOperation = [Inl (ErrorObj ''fetch failed'')],
      fetch_video = (\<lambda>u. Inl Nullish), API_KEY = ''k''\<rparr>
     = Some (Inl (ErrorObj ''fetch failed''), [10000])"
proof -
  let ?e1 = "\<lparr>generateVideos = Inl (ErrorObj ''404 NOT_FOUND: Requested entity was not found.''),
      getVideosOperation = [], fetch_video = (\<lambda>u. Inl Nullish), API_KEY = ''k''\<rparr>"
  let ?o = "\<lparr>op_done = False, op_status = None, op_uri = None\<rparr>"
  let ?e2 = "\<lparr>generateVideos = Inr ?o,
      getVideosOperation = [Inl (ErrorObj ''fetch failed'')],
      fetch_video = (\<lambda>u. Inl Nullish), API_KEY = ''k''\<rparr>"
  have a: "generateVideos ?e1 = Inl (ErrorObj ''404 NOT_FOUND: Requested entity was not found.'')"
    by simp
  have b: "generateVideos ?e2 = Inr ?o
     \<and> poll ?o (getVideosOperation ?e2) [] = Some (Inl (ErrorObj ''fetch failed''), [10000])"
    by (simp add: POLL_DELAY_MS_def)
  have c: "entity_not_found (ErrorObj ''404 NOT_FOUND: Requested entity was not found.'')"
    by (simp add: entity_not_found_def ENTITY_NOT_FOUND_def)
  have d: "\<not> entity_not_found (ErrorObj ''fetch failed'')"
    by (simp add: entity_not_found_def ENTITY_NOT_FOUND_def)
  show ?thesis
    using a b c d
      video_catch_by_message[of ?e1 "ErrorObj ''404 NOT_FOUND: Requested entity was not found.''" ?o "[]" ?o]
      video_catch_by_message[of ?e2 "ErrorObj ''fetch failed''" ?o "[10000]" ?o]
    by (simp add: API_KEY_ERROR_def)
qed

text \<open>
  Claim C4 as stated fails: no transport call fails here, the job itself reports the
  failed state with a message that contains the phrase, and the credential error is thrown.
\<close>

theorem video_job_failure_mapped_counterexample:
  "bringToLifeAsVideo
     \<lparr>generateVideos =
        Inr \<lparr>op_done = True,
             op_status = Some \<lparr>st_state = Some ''FAILED'',
                               st_error_message = Some ''Requested entity was not found.''\<rparr>,
             op_uri = None\<rparr>,
      getVideosOperation = [], fetch_video = (\<lambda>u. Inl Nullish), API_KEY = ''k''\<rparr>
   = Some (Inl (ErrorObj ''API key not found. Please re-select your API key and try again.''), [])"
  by (simp add: bringToLifeAsVideo_def video_try_def after_poll_def is_failed_def
      failure_message_def video_catch_def entity_not_found_def ENTITY_NOT_FOUND_def API_KEY_ERROR_def)

section \<open>Properties of the input area and the session controller\<close>

lemma run_Do_last: "run (acts @ [Do f]) ms s = run acts ms s @ [f (last (s # run acts ms s))]"
proof (induction acts ms s rule: run.induct)
  case (1 ms s)
  then show ?case by simp
next
  case (2 f' acts ms s)
  then show ?case by simp
next
  case (3 acts s)
  then show ?case by simp
next
  case (4 acts m ms s)
  then show ?case by (simp add: last_append)
qed

lemma applied_keeps:
  "list_all keeps_flag m \<Longrightarrow> list_all (\<lambda>x. isGenerating x = isGenerating s) (applied m s)"
proof (induction m arbitrary: s)
  case Nil
  then show ?case by simp
next
  case (Cons f fs)
  then have kf: "keeps_flag f" and fs: "list_all keeps_flag fs" by simp_all
  from kf have f: "isGenerating (f s) = isGenerating s" by (simp add: keeps_flag_def)
  from Cons.IH[OF fs, of "f s"] f show ?case by simp
qed

lemma last_applied_keeps:
  "list_all keeps_flag m \<Longrightarrow> isGenerating (last (s # applied m s)) = isGenerating s"
proof (induction m arbitrary: s)
  case Nil
  then show ?case by simp
next
  case (Cons f fs)
  then have kf: "keeps_flag f" and fs: "list_all keeps_flag fs" by simp_all
  from kf have f: "isGenerating (f s) = isGenerating s" by (simp add: keeps_flag_def)
  from Cons.IH[OF fs, of "f s"] f show ?case by simp
qed

lemma run_quiet:
  "list_all quiet acts \<Longrightarrow> list_all (list_all keeps_flag) ms
   \<Longrightarrow> list_all (\<lambda>x. isGenerating x = isGenerating s) (run acts ms s)"
proof (induction acts ms s rule: run.induct)
  case (1 ms s)
  then show ?case by simp
next
  case (2 f acts ms s)
  then have f: "isGenerating (f s) = isGenerating s"
    by (simp add: quiet_def keeps_flag_def)
  from 2 have "list_all (\<lambda>x. isGenerating x = isGenerating (f s)) (run acts ms (f s))" by simp
  with f show ?case by simp
next
  case (3 acts s)
  then show ?case by simp
next
  case (4 acts m ms s)
  then have m: "list_all keeps_flag m" by simp
  have l: "isGenerating (last (s # applied m s)) = isGenerating s"
    using m by (rule last_applied_keeps)
  from 4 have "list_all (\<lambda>x. isGenerating x = isGenerating (last (s # applied m s)))
     (run acts ms (last (s # applied m s)))" by simp
  with l applied_keeps[OF m, of s] show ?case by simp
qed

lemma quiet_simps [simp]:
  "quiet Await" "quiet (Do open_dialog)" "quiet (Do (log_call c))" "quiet (Do (add_creation ob))"
  "quiet (Do (catch_step prefix ai e))"
  by (auto simp: quiet_def keeps_flag_def open_dialog_def log_call_def add_creation_def
      catch_step_def Let_def split: thrown.splits option.splits)

lemma key_actions_quiet: "key_actions ai = (ka, r) \<Longrightarrow> list_all quiet ka"
  by (auto simp: key_actions_def split: option.splits sum.splits if_splits)

lemma video_actions_quiet: "video_actions env p mk = (acts, oc) \<Longrightarrow> list_all quiet acts"
  by (auto simp: video_actions_def Let_def split: prod.splits option.splits sum.splits if_splits
      dest: key_actions_quiet)

lemma after_quiet: "after pre body = (acts, oc) \<Longrightarrow> list_all quiet pre
   \<Longrightarrow> list_all quiet (fst body) \<Longrightarrow> list_all quiet acts"
  by (auto simp: after_def split: prod.splits)

lemma handleGenerate_try_quiet:
  assumes "handleGenerate_try env p f m = (acts, oc)"
  shows "list_all quiet acts"
proof (cases m)
  case App
  with assms show ?thesis
    by (auto simp: handleGenerate_try_def Let_def after_def
        split: option.splits sum.splits prod.splits if_splits)
next
  case Video
  with assms show ?thesis
    by (auto simp: handleGenerate_try_def Let_def after_def
        split: option.splits sum.splits prod.splits if_splits dest: video_actions_quiet)
qed

lemma handleRegenerateVideo_try_quiet:
  "handleRegenerateVideo_try env p oc = (acts, r) \<Longrightarrow> list_all quiet acts"
  by (auto simp: handleRegenerateVideo_try_def split: if_splits dest: video_actions_quiet)

text \<open>The shape of a handler's run: the first update, updates that leave the flag alone,
  and the \<^verbatim>\<open>finally\<close> clause when the handler ends.\<close>

lemma handler_shape:
  assumes "try_catch_finally prefix ai (after [Do b] body) = (acts, co)"
    and "list_all quiet (fst body)"
  shows "\<exists>mid. list_all quiet mid
           \<and> acts = Do b # mid @ (case co of None \<Rightarrow> [] | Some c \<Rightarrow> [Do generate_finally])"
proof -
  obtain bs oc where body: "body = (bs, oc)" by fastforce
  with assms(2) have q: "list_all quiet bs" by simp
  show ?thesis
  proof (cases oc)
    case Pending
    with assms(1) body have "acts = Do b # bs @ []" "co = None"
      by (simp_all add: try_catch_finally_def after_def)
    with q show ?thesis by auto
  next
    case Completed
    with assms(1) body have "acts = Do b # bs @ [Do generate_finally]" "co = Some Returned"
      by (simp_all add: try_catch_finally_def after_def)
    with q show ?thesis by auto
  next
    case (Threw e)
    with assms(1) body
    have "acts = Do b # (bs @ [Do (catch_step prefix ai e)]) @ [Do generate_finally]"
      "co = Some (catch_completion e)"
      by (simp_all add: try_catch_finally_def after_def)
    moreover have "list_all quiet (bs @ [Do (catch_step prefix ai e)])" using q by simp
    ultimately show ?thesis by (metis option.simps(5))
  qed
qed

text \<open>What the shape gives, for a first update that sets the flag.\<close>

lemma shaped_run:
  assumes q: "list_all quiet mid"
    and b: "\<And>s. isGenerating (b s)"
    and acts: "acts = Do b # mid @ (case co of None \<Rightarrow> [] | Some c \<Rightarrow> [Do generate_finally])"
  shows "run acts ms s \<noteq> [] \<and> isGenerating (hd (run acts ms s))
       \<and> (co \<noteq> None \<longrightarrow> \<not> isGenerating (last (run acts ms s)))
       \<and> (list_all (list_all keeps_flag) ms \<longrightarrow>
            (co = None \<longrightarrow> list_all isGenerating (run acts ms s))
          \<and> (co \<noteq> None \<longrightarrow> list_all isGenerating (butlast (run acts ms s))))"
proof (cases co)
  case None
  then have a: "acts = Do b # mid" using acts by simp
  have "list_all isGenerating (run mid ms (b s))" if "list_all (list_all keeps_flag) ms"
    using run_quiet[OF q that, of "b s"] b[of s] by (simp add: list_all_iff)
  then show ?thesis using a None b[of s] by simp
next
  case (Some c)
  then have a: "acts = Do b # (mid @ [Do generate_finally])" using acts by simp
  let ?r = "run mid ms (b s)"
  have r: "run acts ms s = b s # ?r @ [generate_finally (last (b s # ?r))]"
    using a by (simp add: run_Do_last)
  have "list_all isGenerating ?r" if "list_all (list_all keeps_flag) ms"
    using run_quiet[OF q that, of "b s"] b[of s] by (simp add: list_all_iff)
  moreover have "butlast (run acts ms s) = b s # ?r" using r by (simp add: butlast_append)
  moreover have "last (run acts ms s) = generate_finally (last (b s # ?r))" using r by simp
  ultimately show ?thesis using r Some b[of s] by (simp add: generate_finally_def)
qed

lemma video_actions_not_pending:
  "bringToLifeAsVideo (video_world env) \<noteq> None \<Longrightarrow> video_actions env p mk = (acts, Pending)
   \<Longrightarrow> False"
  by (auto simp: video_actions_def Let_def split: prod.splits option.splits sum.splits)

lemma handleGenerate_ends:
  assumes "m = App \<or> bringToLifeAsVideo (video_world env) \<noteq> None"
  shows "snd (handleGenerate_actions env p f m) \<noteq> None"
proof (cases m)
  case App
  then show ?thesis
    by (auto simp: handleGenerate_actions_def handleGenerate_try_def try_catch_finally_def
        after_def Let_def split: option.splits sum.splits prod.splits outcome.splits)
next
  case Video
  with assms have b: "bringToLifeAsVideo (video_world env) \<noteq> None" by simp
  show ?thesis using Video
    by (auto simp: handleGenerate_actions_def handleGenerate_try_def try_catch_finally_def
        after_def Let_def split: option.splits sum.splits prod.splits outcome.splits
        dest: video_actions_not_pending[OF b])
qed

lemma handleRegenerateVideo_ends:
  assumes "bringToLifeAsVideo (video_world env) \<noteq> None"
  shows "snd (handleRegenerateVideo_actions env p oc) \<noteq> None"
  by (auto simp: handleRegenerateVideo_actions_def handleRegenerateVideo_try_def
      try_catch_finally_def after_def split: prod.splits outcome.splits if_splits
      dest: video_actions_not_pending[OF assms])

text \<open>
  Claim C5, as amended. For every run of \<^verbatim>\<open>handleGenerate\<close> and of
  \<^verbatim>\<open>handleRegenerateVideo\<close>, whatever other handlers do while it waits: its first update
  sets \<^verbatim>\<open>isGenerating\<close>, and when the handler ends (it returns, after a caught error or not,
  or a \<^verbatim>\<open>TypeError\<close> leaves its \<^verbatim>\<open>catch\<close> clause) its last update is the \<^verbatim>\<open>finally\<close> clause,
  which clears the flag. When the updates that other handlers make meanwhile leave the flag
  alone, it is set in every state of the run before the last, and in every state when the
  handler waits for ever. The handler ends whenever the video service returns (always, in
  app mode). Selecting, reordering and importing leave the flag alone.
\<close>

theorem isGenerating_restored:
  "(handleGenerate_actions env p f m = (acts, co)
      \<or> handleRegenerateVideo_actions env p oc = (acts, co) \<longrightarrow>
      run acts ms s \<noteq> [] \<and> isGenerating (hd (run acts ms s))
    \<and> (co \<noteq> None \<longrightarrow> \<not> isGenerating (last (run acts ms s)))
    \<and> (list_all (list_all keeps_flag) ms \<longrightarrow>
         (co = None \<longrightarrow> list_all isGenerating (run acts ms s))
       \<and> (co \<noteq> None \<longrightarrow> list_all isGenerating (butlast (run acts ms s)))))
   \<and> (m = App \<or> bringToLifeAsVideo (video_world env) \<noteq> None \<longrightarrow>
        snd (handleGenerate_actions env p f m) \<noteq> None)
   \<and> (bringToLifeAsVideo (video_world env) \<noteq> None \<longrightarrow>
        snd (handleRegenerateVideo_actions env p oc) \<noteq> None)
   \<and> keeps_flag (handleSelectCreation c) \<and> keeps_flag (handleReorderHistory h)
   \<and> keeps_flag (handleImportFile Date_parse file now_ms fresh)"
proof (intro conjI impI)
  assume h: "handleGenerate_actions env p f m = (acts, co)
      \<or> handleRegenerateVideo_actions env p oc = (acts, co)"
  have "\<exists>b mid. (\<forall>s. isGenerating (b s)) \<and> list_all quiet mid
           \<and> acts = Do b # mid @ (case co of None \<Rightarrow> [] | Some c \<Rightarrow> [Do generate_finally])"
  proof -
    from h consider (gen) "handleGenerate_actions env p f m = (acts, co)"
      | (regen) "handleRegenerateVideo_actions env p oc = (acts, co)" by blast
    then show ?thesis
    proof cases
      case gen
      have "list_all quiet (fst (handleGenerate_try env p f m))"
        using handleGenerate_try_quiet[of env p f m] by (cases "handleGenerate_try env p f m") simp
      with gen obtain mid where "list_all quiet mid"
        "acts = Do (handleGenerate_begin m) # mid
           @ (case co of None \<Rightarrow> [] | Some c \<Rightarrow> [Do generate_finally])"
        unfolding handleGenerate_actions_def using handler_shape by blast
      moreover have "\<forall>s. isGenerating (handleGenerate_begin m s)"
        by (simp add: handleGenerate_begin_def)
      ultimately show ?thesis by blast
    next
      case regen
      have "list_all quiet (fst (handleRegenerateVideo_try env p oc))"
        using handleRegenerateVideo_try_quiet[of env p oc]
        by (cases "handleRegenerateVideo_try env p oc") simp
      with regen obtain mid where "list_all quiet mid"
        "acts = Do handleRegenerateVideo_begin # mid
           @ (case co of None \<Rightarrow> [] | Some c \<Rightarrow> [Do generate_finally])"
        unfolding handleRegenerateVideo_actions_def using handler_shape by blast
      moreover have "\<forall>s. isGenerating (handleRegenerateVideo_begin s)"
        by (simp add: handleRegenerateVideo_begin_def)
      ultimately show ?thesis by blast
    qed
  qed
  then obtain b mid where b: "\<And>s. isGenerating (b s)" and q: "list_all quiet mid"
    and a: "acts = Do b # mid @ (case co of None \<Rightarrow> [] | Some c \<Rightarrow> [Do generate_finally])"
    by blast
  note r = shaped_run[OF q b a, of ms s]
  from r show "run acts ms s \<noteq> []" by simp
  from r show "isGenerating (hd (run acts ms s))" by simp
  { assume "co \<noteq> None" with r show "\<not> isGenerating (last (run acts ms s))" by simp }
  { assume "list_all (list_all keeps_flag) ms" and "co = None"
    with r show "list_all isGenerating (run acts ms s)" by simp }
  { assume "list_all (list_all keeps_flag) ms" and "co \<noteq> None"
    with r show "list_all isGenerating (butlast (run acts ms s))" by simp }
next
  assume "m = App \<or> bringToLifeAsVideo (video_world env) \<noteq> None"
  then show "snd (handleGenerate_actions env p f m) \<noteq> None" by (rule handleGenerate_ends)
next
  assume "bringToLifeAsVideo (video_world env) \<noteq> None"
  then show "snd (handleRegenerateVideo_actions env p oc) \<noteq> None"
    by (rule handleRegenerateVideo_ends)
next
  show "keeps_flag (handleSelectCreation c)"
    by (simp add: keeps_flag_def handleSelectCreation_def)
  show "keeps_flag (handleReorderHistory h)"
    by (simp add: keeps_flag_def handleReorderHistory_def)
  show "keeps_flag (handleImportFile Date_parse file now_ms fresh)"
    by (auto simp: keeps_flag_def handleImportFile_def show_alert_def Let_def
        split: import_file.splits option.splits parsed.splits)
qed


text \<open>
  The theorem at a generation during which a creation is selected, and at a regeneration
  whose job submission fails.
\<close>

theorem isGenerating_restored_witness:
  "map isGenerating
     (run (fst (handleGenerate_actions
                  \<lparr>window_aistudio = None,
                   video_world = \<lparr>generateVideos = Inl (ErrorObj ''quota exceeded''),
                                  getVideosOperation = [], fetch_video = (\<lambda>u. Inl Nullish),
                                  API_KEY = ''k''\<rparr>,
                   generateContent = Inr (Some ''<p>hi</p>''), randomUUID = ''u1'',
                   Date_now = 1000\<rparr>
                  ''make it'' None App))
        [[handleSelectCreation Map.empty]]
        \<lparr>activeCreation = None, isGenerating = False, generationMode = Video, history = [],
         alerts = [], keyDialogs = 0, calls = []\<rparr>)
   = [True, True, True, True, False]
   \<and> map isGenerating
     (run (fst (handleRegenerateVideo_actions
                  \<lparr>window_aistudio = None,
                   video_world = \<lparr>generateVideos = Inl (ErrorObj ''quota exceeded''),
                                  getVideosOperation = [], fetch_video = (\<lambda>u. Inl Nullish),
                                  API_KEY = ''k''\<rparr>,
                   generateContent = Inr (Some ''<p>hi</p>''), randomUUID = ''u1'',
                   Date_now = 1000\<rparr>
                  ''again'' Map.empty))
        []
        \<lparr>activeCreation = None, isGenerating = False, generationMode = App, history = [],
         alerts = [], keyDialogs = 0, calls = []\<rparr>)
   = [True, True, True, False]"
proof -
  let ?env = "\<lparr>window_aistudio = None,
                   video_world = \<lparr>generateVideos = Inl (ErrorObj ''quota exceeded''),
                                  getVideosOperation = [], fetch_video = (\<lambda>u. Inl Nullish),
                                  API_KEY = ''k''\<rparr>,
                   generateContent = Inr (Some ''<p>hi</p>''), randomUUID = ''u1'',
                   Date_now = 1000\<rparr>"
  let ?s = "\<lparr>activeCreation = None, isGenerating = False, generationMode = Video, history = [],
         alerts = [], keyDialogs = 0, calls = []\<rparr>"
  let ?s' = "\<lparr>activeCreation = None, isGenerating = False, generationMode = App, history = [],
         alerts = [], keyDialogs = 0, calls = []\<rparr>"
  let ?ms = "[[handleSelectCreation Map.empty]]"
  obtain acts co where a: "handleGenerate_actions ?env ''make it'' None App = (acts, co)"
    by fastforce
  obtain acts' co' where a': "handleRegenerateVideo_actions ?env ''again'' Map.empty = (acts', co')"
    by fastforce
  have v: "bringToLifeAsVideo \<lparr>generateVideos = Inl (ErrorObj ''quota exceeded''),
      getVideosOperation = [], fetch_video = (\<lambda>u. Inl Nullish), API_KEY = ''k''\<rparr>
      = Some (Inl (ErrorObj ''quota exceeded''), [])"
    by (simp add: bringToLifeAsVideo_def video_try_def video_catch_def entity_not_found_def
        ENTITY_NOT_FOUND_def)
  have l: "length (run acts ?ms ?s) = 5 \<and> co \<noteq> None"
    using a
    by (auto simp: handleGenerate_actions_def handleGenerate_try_def try_catch_finally_def
        after_def Let_def bringToLife_def text_or_placeholder_def strip_fences_def
        strip_html_fence_def strip_bare_fence_def strip_trailing_fence_def endsWith_def fence_def)
  have l': "length (run acts' [] ?s') = 4 \<and> co' \<noteq> None"
    using a'
    by (auto simp: handleRegenerateVideo_actions_def handleRegenerateVideo_try_def
        video_actions_def key_actions_def v get_def split_throws_def
        try_catch_finally_def after_def Let_def)
  have k: "list_all (list_all keeps_flag) ?ms"
    by (simp add: keeps_flag_def handleSelectCreation_def)
  have 1: "list_all isGenerating (butlast (run acts ?ms ?s)) \<and> \<not> isGenerating (last (run acts ?ms ?s))"
    using isGenerating_restored[where env = ?env and p = "''make it''" and f = None and m = App
        and acts = acts and co = co and ms = ?ms and s = ?s] a l k
    by simp
  have 2: "list_all isGenerating (butlast (run acts' [] ?s')) \<and> \<not> isGenerating (last (run acts' [] ?s'))"
    using isGenerating_restored[where env = ?env and p = "''again''" and oc = Map.empty
        and acts = acts' and co = co' and ms = "[]" and s = ?s'] a' l'
    by simp
  have flags: "map isGenerating xs = replicate (length xs - 1) True @ [False]"
    if "xs \<noteq> []" "list_all isGenerating (butlast xs)" "\<not> isGenerating (last xs)"
    for xs :: "app_state list"
    using that
  proof (induction xs)
    case Nil
    then show ?case by simp
  next
    case (Cons x xs)
    then show ?case by (cases xs) auto
  qed
  have ne: "run acts ?ms ?s \<noteq> []" and ne': "run acts' [] ?s' \<noteq> []"
    using l l' by auto
  have "map isGenerating (run acts ?ms ?s) = [True, True, True, True, False]"
    using flags[OF ne] 1 l by (simp add: numeral_eq_Suc)
  moreover have "map isGenerating (run acts' [] ?s') = [True, True, True, False]"
    using flags[OF ne'] 2 l' by (simp add: numeral_eq_Suc)
  ultimately show ?thesis using a a' by simp
qed

text \<open>
  Claim C5 as stated fails: the preview's close button stays clickable while a generation
  waits for the service, and \<^verbatim>\<open>handleReset\<close> clears the flag; it is then false for the
  rest of the operation.
\<close>

theorem reset_clears_flag_counterexample:
  "map isGenerating
     (run (fst (handleGenerate_actions
                  \<lparr>window_aistudio = None,
                   video_world = \<lparr>generateVideos = Inl (ErrorObj ''quota exceeded''),
                                  getVideosOperation = [], fetch_video = (\<lambda>u. Inl Nullish),
                                  API_KEY = ''k''\<rparr>,
                   generateContent = Inr (Some ''<p>hi</p>''), randomUUID = ''u1'',
                   Date_now = 1000\<rparr>
                  ''make it'' None App))
        [[handleReset]]
        \<lparr>activeCreation = None, isGenerating = False, generationMode = App, history = [],
         alerts = [], keyDialogs = 0, calls = []\<rparr>)
   = [True, True, False, False, False]"
  by (simp add: handleGenerate_actions_def handleGenerate_try_def try_catch_finally_def
      after_def Let_def bringToLife_def text_or_placeholder_def strip_fences_def
      strip_html_fence_def strip_bare_fence_def strip_trailing_fence_def endsWith_def fence_def
      handleGenerate_begin_def log_call_def add_creation_def generate_finally_def
      handleReset_def)

lemma calls_steps [simp]:
  "calls (open_dialog s) = calls s" "calls (add_creation ob s) = calls s"
  "calls (generate_finally s) = calls s" "calls (catch_step prefix ai e s) = calls s"
  "calls (handleGenerate_begin m s) = calls s" "calls (log_call c s) = calls s @ [c]"
  by (auto simp: open_dialog_def add_creation_def generate_finally_def catch_step_def
      handleGenerate_begin_def log_call_def Let_def split: thrown.splits option.splits)

lemma key_actions_shapes:
  "key_actions ai = (ka, r) \<Longrightarrow> ka = [] \<or> ka = [Await] \<or> ka = [Await, Do open_dialog, Await]"
  by (auto simp: key_actions_def split: option.splits sum.splits if_splits)

lemma video_click_calls_client:
  assumes r: "read_base64 file = Inr b" and k: "snd (key_actions (window_aistudio env)) = None"
  shows "calls (snd (handleGenerate env p (Some file) Video s)) = calls s @ [CallBringToLifeAsVideo p]"
proof -
  obtain ka where ka: "key_actions (window_aistudio env) = (ka, None)"
    using k by (cases "key_actions (window_aistudio env)") simp
  from key_actions_shapes[OF ka]
  consider "ka = []" | "ka = [Await]" | "ka = [Await, Do open_dialog, Await]" by blast
  then show ?thesis
  proof cases
    case 1
    with r ka show ?thesis
      by (auto simp: handleGenerate_def handleGenerate_actions_def handleGenerate_try_def
          video_actions_def try_catch_finally_def after_def run_alone_def Let_def
          split: option.splits sum.splits prod.splits)
  next
    case 2
    with r ka show ?thesis
      by (auto simp: handleGenerate_def handleGenerate_actions_def handleGenerate_try_def
          video_actions_def try_catch_finally_def after_def run_alone_def Let_def
          split: option.splits sum.splits prod.splits)
  next
    case 3
    with r ka show ?thesis
      by (auto simp: handleGenerate_def handleGenerate_actions_def handleGenerate_try_def
          video_actions_def try_catch_finally_def after_def run_alone_def Let_def
          split: option.splits sum.splits prod.splits)
  qed
qed

lemma click_Generate_turned_down:
  assumes "ia_mode ia = App" and "stagedFile ia = None"
  shows "\<exists>s'. fst (click_Generate env ia s) = (Some Returned, s') \<and> calls s' = calls s
           \<and> history s' = history s \<and> activeCreation s' = activeCreation s
           \<and> isGenerating s' = isGenerating s"
  using assms by (auto simp: click_Generate_def handleGenerateClick_def show_alert_def)

text \<open>
  Claim C7: a click in app mode without a staged file never calls \<^verbatim>\<open>onGenerate\<close>: the
  handler returns with no call of the generation client made and the history, the active
  creation and the flag as they were, and on an enabled input area it shows the alert that
  a file is required. On an enabled input area (not generating, not disabled: the button
  is disabled otherwise), a click in video mode with a staged file calls \<^verbatim>\<open>onGenerate\<close>
  whatever the prompt, also when it is empty: \<^verbatim>\<open>handleGenerate\<close> runs, and once the file is
  read and the key check has passed it calls the video client with that prompt. A click in
  video mode is turned down exactly when the trimmed prompt is empty and no file is staged.
\<close>

theorem generate_click_guards:
  "(ia_mode ia = App \<and> stagedFile ia = None \<longrightarrow>
      fst (handleGenerateClick g d ia) \<noteq> OnGenerate p f m
      \<and> (\<exists>s'. fst (click_Generate env ia s) = (Some Returned, s') \<and> calls s' = calls s
            \<and> history s' = history s \<and> activeCreation s' = activeCreation s
            \<and> isGenerating s' = isGenerating s))
   \<and> (\<not> g \<and> \<not> d \<longrightarrow>
        (ia_mode ia = App \<and> stagedFile ia = None \<longrightarrow>
           handleGenerateClick g d ia = (Alerted ''Please upload a file to generate an app.'', ia))
      \<and> (ia_mode ia = Video \<and> stagedFile ia = Some img \<longrightarrow>
           fst (handleGenerateClick g d ia) = OnGenerate (ia_prompt ia) (Some img) Video)
      \<and> (ia_mode ia = Video \<longrightarrow>
           (fst (handleGenerateClick g d ia) = OnGenerate (ia_prompt ia) (stagedFile ia) Video
              \<longleftrightarrow> \<not> (trim (ia_prompt ia) = [] \<and> stagedFile ia = None))
         \<and> (handleGenerateClick g d ia
                = (Alerted ''Please provide a prompt or an image to generate a video.'', ia)
              \<longleftrightarrow> trim (ia_prompt ia) = [] \<and> stagedFile ia = None)))
   \<and> (\<not> isFocused s \<and> ia_mode ia = Video \<and> stagedFile ia = Some img \<longrightarrow>
        fst (click_Generate env ia s) = handleGenerate env (ia_prompt ia) (Some img) Video s
        \<and> (read_base64 img = Inr b \<and> snd (key_actions (window_aistudio env)) = None \<longrightarrow>
             calls (snd (fst (click_Generate env ia s)))
               = calls s @ [CallBringToLifeAsVideo (ia_prompt ia)]))"
proof (intro conjI impI)
  assume a: "ia_mode ia = App \<and> stagedFile ia = None"
  then show "fst (handleGenerateClick g d ia) \<noteq> OnGenerate p f m"
    by (auto simp: handleGenerateClick_def)
  from a show "\<exists>s'. fst (click_Generate env ia s) = (Some Returned, s') \<and> calls s' = calls s
            \<and> history s' = history s \<and> activeCreation s' = activeCreation s
            \<and> isGenerating s' = isGenerating s"
    using click_Generate_turned_down by blast
next
  assume v: "\<not> isFocused s \<and> ia_mode ia = Video \<and> stagedFile ia = Some img"
  then show c: "fst (click_Generate env ia s) = handleGenerate env (ia_prompt ia) (Some img) Video s"
    by (auto simp: click_Generate_def handleGenerateClick_def isFocused_def)
  assume "read_base64 img = Inr b \<and> snd (key_actions (window_aistudio env)) = None"
  then show "calls (snd (fst (click_Generate env ia s)))
               = calls s @ [CallBringToLifeAsVideo (ia_prompt ia)]"
    using c video_click_calls_client by simp
qed (auto simp: handleGenerateClick_def)

text \<open>
  The theorem at the two scenarios of the specification: app mode with the prompt
  \<^verbatim>\<open>landing page\<close> and no file, and video mode with an empty prompt and an image, where the
  job is submitted and stays pending.
\<close>

theorem generate_click_guards_witness:
  "fst (click_Generate
     \<lparr>window_aistudio = None,
      video_world = \<lparr>generateVideos = Inr \<lparr>op_done = False, op_status = None, op_uri = None\<rparr>,
                     getVideosOperation = [], fetch_video = (\<lambda>u. Inl Nullish), API_KEY = ''k''\<rparr>,
      generateContent = Inl (ErrorObj ''network down''), randomUUID = ''u1'', Date_now = 1000\<rparr>
     \<lparr>ia_mode = App, ia_prompt = ''landing page'', stagedFile = None\<rparr>
     \<lparr>activeCreation = None, isGenerating = False, generationMode = App, history = [],
      alerts = [], keyDialogs = 0, calls = []\<rparr>)
   = (Some Returned,
       \<lparr>activeCreation = None, isGenerating = False, generationMode = App, history = [],
        alerts = [''Please upload a file to generate an app.''], keyDialogs = 0, calls = []\<rparr>)
   \<and> fst (click_Generate
     \<lparr>window_aistudio = None,
      video_world = \<lparr>generateVideos = Inr \<lparr>op_done = False, op_status = None, op_uri = None\<rparr>,
                     getVideosOperation = [], fetch_video = (\<lambda>u. Inl Nullish), API_KEY = ''k''\<rparr>,
      generateContent = Inl (ErrorObj ''network down''), randomUUID = ''u1'', Date_now = 1000\<rparr>
     \<lparr>ia_mode = Video, ia_prompt = [],
      stagedFile = Some \<lparr>file_name = ''cat.png'', file_type = ''image/png'',
                          read_base64 = Inr (Some ''aGk='')\<rparr>\<rparr>
     \<lparr>activeCreation = None, isGenerating = False, generationMode = App, history = [],
      alerts = [], keyDialogs = 0, calls = []\<rparr>)
   = (None,
       \<lparr>activeCreation = None, isGenerating = True, generationMode = Video, history = [],
        alerts = [], keyDialogs = 0, calls = [CallBringToLifeAsVideo []]\<rparr>)"
proof -
  let ?env = "\<lparr>window_aistudio = None,
      video_world = \<lparr>generateVideos = Inr \<lparr>op_done = False, op_status = None, op_uri = None\<rparr>,
                     getVideosOperation = [], fetch_video = (\<lambda>u. Inl Nullish), API_KEY = ''k''\<rparr>,
      generateContent = Inl (ErrorObj ''network down''), randomUUID = ''u1'', Date_now = 1000\<rparr>"
  let ?s = "\<lparr>activeCreation = None, isGenerating = False, generationMode = App, history = [],
      alerts = [], keyDialogs = 0, calls = []\<rparr>"
  let ?app = "\<lparr>ia_mode = App, ia_prompt = ''landing page'', stagedFile = None\<rparr>"
  let ?file = "\<lparr>file_name = ''cat.png'', file_type = ''image/png'',
                          read_base64 = Inr (Some ''aGk='')\<rparr>"
  let ?video = "\<lparr>ia_mode = Video, ia_prompt = [], stagedFile = Some ?file\<rparr>"
  have v: "bringToLifeAsVideo \<lparr>generateVideos = Inr \<lparr>op_done = False, op_status = None, op_uri = None\<rparr>,
                     getVideosOperation = [], fetch_video = (\<lambda>u. Inl Nullish), API_KEY = ''k''\<rparr>
            = None"
    by (simp add: bringToLifeAsVideo_def video_try_def)
  have 1: "fst (click_Generate ?env ?app ?s)
     = (Some Returned, \<lparr>activeCreation = None, isGenerating = False, generationMode = App,
          history = [], alerts = [''Please upload a file to generate an app.''], keyDialogs = 0,
          calls = []\<rparr>)"
    using generate_click_guards[where ia = ?app and g = False and d = False and env = ?env
        and s = ?s]
    by (simp add: click_Generate_def isFocused_def show_alert_def handleGenerateClick_def)
  have c: "calls (snd (fst (click_Generate ?env ?video ?s))) = [CallBringToLifeAsVideo []]"
  proof -
    have v: "\<not> isFocused ?s \<and> ia_mode ?video = Video \<and> stagedFile ?video = Some ?file"
      by (simp add: isFocused_def)
    have r: "read_base64 ?file = Inr (Some ''aGk='')
             \<and> snd (key_actions (window_aistudio ?env)) = None"
      by (simp add: key_actions_def)
    from generate_click_guards[where ia = ?video and env = ?env and s = ?s and img = ?file
        and b = "Some ''aGk=''" and g = False and d = False] v r
    have "calls (snd (fst (click_Generate ?env ?video ?s)))
          = calls ?s @ [CallBringToLifeAsVideo (ia_prompt ?video)]"
      by blast
    then show ?thesis by simp
  qed
  have 2: "fst (click_Generate ?env ?video ?s)
     = (None, \<lparr>activeCreation = None, isGenerating = True, generationMode = Video, history = [],
        alerts = [], keyDialogs = 0, calls = [CallBringToLifeAsVideo []]\<rparr>)"
    using c
    by (simp add: click_Generate_def isFocused_def handleGenerateClick_def trim_def
        handleGenerate_def handleGenerate_actions_def handleGenerate_try_def video_actions_def
        key_actions_def v try_catch_finally_def after_def run_alone_def Let_def
        handleGenerate_begin_def log_call_def)
  show ?thesis using 1 2 by simp
qed


section \<open>Properties of import\<close>




section \<open>Properties of the creation store\<close>

lemma toJSON_value: "json_value v \<Longrightarrow> toJSON v = Some v"
proof (induction v rule: json_value.induct)
  case (11 xs)
  then have "map (\<lambda>x. case toJSON x of None \<Rightarrow> JNull | Some w \<Rightarrow> w) xs = xs"
    by (induction xs) auto
  then show ?case by simp
next
  case (12 kvs)
  then have "concat (map (\<lambda>kv. case toJSON (snd kv) of None \<Rightarrow> [] | Some w \<Rightarrow> [(fst kv, w)]) kvs)
      = kvs"
    by (induction kvs) auto
  then show ?case by simp
qed simp_all

lemma toJSON_plain:
  "json_plain v \<Longrightarrow> (case toJSON v of None \<Rightarrow> JUndefined | Some w \<Rightarrow> w) = v"
  by (auto simp: json_plain_def toJSON_value)

lemma get_stringify_plain:
  assumes "json_plain (get c k)"
  shows "get (JSON_stringify c) k = get c k"
proof (cases "c k")
  case None
  then show ?thesis by (simp add: get_def JSON_stringify_def)
next
  case (Some v)
  with assms have "json_plain v" by (simp add: get_def)
  then have "(case toJSON v of None \<Rightarrow> JUndefined | Some w \<Rightarrow> w) = v" by (rule toJSON_plain)
  with Some show ?thesis by (simp add: get_def JSON_stringify_def)
qed

lemma stringify_omits_videoUrl:
  "JSON_stringify (omit_videoUrl c) ''videoUrl'' = None
   \<and> (\<forall>k. k \<noteq> ''videoUrl'' \<longrightarrow> JSON_stringify (omit_videoUrl c) k = JSON_stringify c k)"
  by (simp add: JSON_stringify_def omit_videoUrl_def)

lemma stored_get:
  "k \<noteq> ''videoUrl'' \<Longrightarrow> get (JSON_stringify (omit_videoUrl c)) k = get (JSON_stringify c) k"
  using stringify_omits_videoUrl[of c] by (simp add: get_def)

lemma roundtrip_videoUrl: "revive dp (JSON_stringify (omit_videoUrl c)) ''videoUrl'' = None"
  by (simp add: revive_def stringify_omits_videoUrl)

lemma roundtrip_plain:
  assumes "k \<noteq> ''videoUrl''" and "k \<noteq> ''timestamp''" and "json_plain (get c k)"
  shows "get (revive dp (JSON_stringify (omit_videoUrl c))) k = get c k"
proof -
  have "get (revive dp (JSON_stringify (omit_videoUrl c))) k = get (JSON_stringify (omit_videoUrl c)) k"
    using assms(2) by (simp add: revive_def get_def)
  also have "\<dots> = get (JSON_stringify c) k" using assms(1) by (rule stored_get)
  also have "\<dots> = get c k" using assms(3) by (rule get_stringify_plain)
  finally show ?thesis .
qed

lemma roundtrip_timestamp:
  assumes "get c ''timestamp'' = JDate d"
  shows "get (revive dp (JSON_stringify (omit_videoUrl c))) ''timestamp''
     = JDate (case d of ValidDate t \<Rightarrow> ValidDate t | InvalidDate \<Rightarrow> ValidDate 0)"
proof -
  from assms have c: "c ''timestamp'' = Some (JDate d)"
    by (auto simp: get_def split: option.splits)
  have "get (JSON_stringify (omit_videoUrl c)) ''timestamp'' = get (JSON_stringify c) ''timestamp''"
    by (rule stored_get) simp
  also have "\<dots> = (case d of ValidDate t \<Rightarrow> JIsoStr t | InvalidDate \<Rightarrow> JNull)"
    using c by (cases d) (simp_all add: get_def JSON_stringify_def)
  finally show ?thesis by (cases d) (simp_all add: revive_def get_def)
qed

lemma those_own_props: "those (map (\<lambda>x. own_props (PObject (f x))) xs) = Some (map f xs)"
  by (induction xs) (simp_all add: own_props_def)

lemma load_persist:
  "hist \<noteq> [] \<Longrightarrow>
   load_saved dp (persist True hist ls) = map (\<lambda>c. revive dp (JSON_stringify (omit_videoUrl c))) hist"
  by (simp add: persist_def load_saved_def comp_def those_own_props)

text \<open>
  Claim C2, as amended. For a non-empty history, persist followed by load gives, record by
  record (whatever the other records are), an object without \<^verbatim>\<open>videoUrl\<close> in which
  every property other than \<^verbatim>\<open>videoUrl\<close> and \<^verbatim>\<open>timestamp\<close> whose value is undefined or
  a value of JSON (null, a boolean, a finite number other than negative zero, a string, an
  array or an object of such values) reads as in the original, and whose \<^verbatim>\<open>timestamp\<close> is
  the original's when that is a valid Date. What persist stores, and what \<^verbatim>\<open>handleExport\<close>
  downloads, is the serialisation of the record without the \<^verbatim>\<open>videoUrl\<close> property and
  with every other property as \<^verbatim>\<open>JSON.stringify\<close> writes it; \<^verbatim>\<open>handleExport\<close> downloads
  it when the name of the creation is a string, and throws otherwise.
\<close>

theorem persist_load_roundtrip:
  assumes "hist \<noteq> []"
  shows "list_all2
           (\<lambda>c c'. c' ''videoUrl'' = None
              \<and> (\<forall>k. k \<noteq> ''videoUrl'' \<and> k \<noteq> ''timestamp'' \<and> json_plain (get c k)
                     \<longrightarrow> get c' k = get c k)
              \<and> (\<forall>t. get c ''timestamp'' = JDate (ValidDate t)
                     \<longrightarrow> get c' ''timestamp'' = JDate (ValidDate t)))
           hist (load_saved Date_parse (persist True hist ls))
       \<and> (\<exists>js. persist True hist ls = Some (JsonArray (map PObject js))
             \<and> list_all2 (\<lambda>c j. j ''videoUrl'' = None
                   \<and> (\<forall>k. k \<noteq> ''videoUrl'' \<longrightarrow> j k = JSON_stringify c k)) hist js)
       \<and> (\<forall>c. (is_string (get c ''name'') \<longrightarrow>
                  (\<exists>j. handleExport (Some c) = Download j \<and> j ''videoUrl'' = None
                      \<and> (\<forall>k. k \<noteq> ''videoUrl'' \<longrightarrow> j k = JSON_stringify c k)))
              \<and> (\<not> is_string (get c ''name'') \<longrightarrow> handleExport (Some c) = ExportTypeError))"
proof (intro conjI)
  let ?rt = "\<lambda>c. revive Date_parse (JSON_stringify (omit_videoUrl c))"
  have "?rt c ''videoUrl'' = None
     \<and> (\<forall>k. k \<noteq> ''videoUrl'' \<and> k \<noteq> ''timestamp'' \<and> json_plain (get c k)
            \<longrightarrow> get (?rt c) k = get c k)
     \<and> (\<forall>t. get c ''timestamp'' = JDate (ValidDate t)
            \<longrightarrow> get (?rt c) ''timestamp'' = JDate (ValidDate t))" for c
  proof (intro conjI allI impI)
    show "?rt c ''videoUrl'' = None" by (rule roundtrip_videoUrl)
  next
    fix k assume "k \<noteq> ''videoUrl'' \<and> k \<noteq> ''timestamp'' \<and> json_plain (get c k)"
    then show "get (?rt c) k = get c k" using roundtrip_plain by blast
  next
    fix t assume "get c ''timestamp'' = JDate (ValidDate t)"
    then show "get (?rt c) ''timestamp'' = JDate (ValidDate t)"
      using roundtrip_timestamp[of c "ValidDate t" Date_parse] by simp
  qed
  then show "list_all2
           (\<lambda>c c'. c' ''videoUrl'' = None
              \<and> (\<forall>k. k \<noteq> ''videoUrl'' \<and> k \<noteq> ''timestamp'' \<and> json_plain (get c k)
                     \<longrightarrow> get c' k = get c k)
              \<and> (\<forall>t. get c ''timestamp'' = JDate (ValidDate t)
                     \<longrightarrow> get c' ''timestamp'' = JDate (ValidDate t)))
           hist (load_saved Date_parse (persist True hist ls))"
    by (simp add: load_persist[OF assms] list_all2_map2 list_all2_same)
next
  let ?js = "map (\<lambda>c. JSON_stringify (omit_videoUrl c)) hist"
  have "persist True hist ls = Some (JsonArray (map PObject ?js))"
    using assms by (simp add: persist_def comp_def)
  moreover have "list_all2 (\<lambda>c j. j ''videoUrl'' = None
                   \<and> (\<forall>k. k \<noteq> ''videoUrl'' \<longrightarrow> j k = JSON_stringify c k)) hist ?js"
    using stringify_omits_videoUrl by (simp add: list_all2_map2 list_all2_same)
  ultimately show "\<exists>js. persist True hist ls = Some (JsonArray (map PObject js))
             \<and> list_all2 (\<lambda>c j. j ''videoUrl'' = None
                   \<and> (\<forall>k. k \<noteq> ''videoUrl'' \<longrightarrow> j k = JSON_stringify c k)) hist js"
    by blast
next
  show "\<forall>c. (is_string (get c ''name'') \<longrightarrow>
                  (\<exists>j. handleExport (Some c) = Download j \<and> j ''videoUrl'' = None
                      \<and> (\<forall>k. k \<noteq> ''videoUrl'' \<longrightarrow> j k = JSON_stringify c k)))
              \<and> (\<not> is_string (get c ''name'') \<longrightarrow> handleExport (Some c) = ExportTypeError)"
    using stringify_omits_videoUrl by (simp add: handleExport_def)
qed

text \<open>
  The theorem at a history of two records: a video creation as the interface declares it,
  with a list of tags besides, which comes back equal but for \<^verbatim>\<open>videoUrl\<close>; and a record
  whose name is the number \<^verbatim>\<open>Infinity\<close> (an imported \<^verbatim>\<open>1e400\<close>) and whose timestamp is
  invalid, of which the id, the type and the html come back. The first is exported without
  \<^verbatim>\<open>videoUrl\<close>; the export of the second throws.
\<close>

theorem persist_load_roundtrip_witness:
  "map (\<lambda>c'. (get c' ''id'', get c' ''name'', get c' ''timestamp'', get c' ''type'',
              get c' ''originalImage'', get c' ''tags'', c' ''videoUrl''))
     (take 1 (load_saved (\<lambda>v. InvalidDate) (persist True
        [[''id'' \<mapsto> JStr ''u1'', ''name'' \<mapsto> JStr ''cat'',
          ''timestamp'' \<mapsto> JDate (ValidDate 1700000000000), ''type'' \<mapsto> JStr ''video'',
          ''originalImage'' \<mapsto> JUndefined, ''tags'' \<mapsto> JArr [JStr ''pet'', JNum (Finite 2)],
          ''videoUrl'' \<mapsto> JStr ''blob:1''],
         [''id'' \<mapsto> JStr ''u2'', ''name'' \<mapsto> JNum PosInfinity,
          ''timestamp'' \<mapsto> JDate InvalidDate, ''type'' \<mapsto> JStr ''app'', ''html'' \<mapsto> JStr ''<p>'']]
        None)))
   = [(JStr ''u1'', JStr ''cat'', JDate (ValidDate 1700000000000), JStr ''video'', JUndefined,
       JArr [JStr ''pet'', JNum (Finite 2)], None)]
   \<and> map (\<lambda>c'. (get c' ''id'', get c' ''type'', get c' ''html'', c' ''videoUrl''))
     (drop 1 (load_saved (\<lambda>v. InvalidDate) (persist True
        [[''id'' \<mapsto> JStr ''u1'', ''name'' \<mapsto> JStr ''cat'',
          ''timestamp'' \<mapsto> JDate (ValidDate 1700000000000), ''type'' \<mapsto> JStr ''video'',
          ''originalImage'' \<mapsto> JUndefined, ''tags'' \<mapsto> JArr [JStr ''pet'', JNum (Finite 2)],
          ''videoUrl'' \<mapsto> JStr ''blob:1''],
         [''id'' \<mapsto> JStr ''u2'', ''name'' \<mapsto> JNum PosInfinity,
          ''timestamp'' \<mapsto> JDate InvalidDate, ''type'' \<mapsto> JStr ''app'', ''html'' \<mapsto> JStr ''<p>'']]
        None)))
   = [(JStr ''u2'', JStr ''app'', JStr ''<p>'', None)]
   \<and> (\<exists>j. handleExport (Some
         [''id'' \<mapsto> JStr ''u1'', ''name'' \<mapsto> JStr ''cat'',
          ''timestamp'' \<mapsto> JDate (ValidDate 1700000000000), ''type'' \<mapsto> JStr ''video'',
          ''originalImage'' \<mapsto> JUndefined, ''tags'' \<mapsto> JArr [JStr ''pet'', JNum (Finite 2)],
          ''videoUrl'' \<mapsto> JStr ''blob:1'']) = Download j
        \<and> j ''videoUrl'' = None \<and> j ''originalImage'' = None \<and> j ''name'' = Some (JStr ''cat'')
        \<and> j ''timestamp'' = Some (JIsoStr 1700000000000))
   \<and> handleExport (Some
         [''id'' \<mapsto> JStr ''u2'', ''name'' \<mapsto> JNum PosInfinity,
          ''timestamp'' \<mapsto> JDate InvalidDate, ''type'' \<mapsto> JStr ''app'', ''html'' \<mapsto> JStr ''<p>''])
       = ExportTypeError"
proof -
  let ?c = "[''id'' \<mapsto> JStr ''u1'', ''name'' \<mapsto> JStr ''cat'',
          ''timestamp'' \<mapsto> JDate (ValidDate 1700000000000), ''type'' \<mapsto> JStr ''video'',
          ''originalImage'' \<mapsto> JUndefined, ''tags'' \<mapsto> JArr [JStr ''pet'', JNum (Finite 2)],
          ''videoUrl'' \<mapsto> JStr ''blob:1'']"
  let ?d = "[''id'' \<mapsto> JStr ''u2'', ''name'' \<mapsto> JNum PosInfinity,
          ''timestamp'' \<mapsto> JDate InvalidDate, ''type'' \<mapsto> JStr ''app'', ''html'' \<mapsto> JStr ''<p>'']"
  let ?dp = "\<lambda>v :: jsval. InvalidDate"
  have ne: "[?c, ?d] \<noteq> []" by simp
  obtain c' d' where l: "load_saved ?dp (persist True [?c, ?d] None) = [c', d']"
    by (simp add: load_persist[OF ne])
  have r: "(c' ''videoUrl'' = None
      \<and> (\<forall>k. k \<noteq> ''videoUrl'' \<and> k \<noteq> ''timestamp'' \<and> json_plain (get ?c k) \<longrightarrow> get c' k = get ?c k)
      \<and> (\<forall>t. get ?c ''timestamp'' = JDate (ValidDate t) \<longrightarrow> get c' ''timestamp'' = JDate (ValidDate t)))
    \<and> (d' ''videoUrl'' = None
      \<and> (\<forall>k. k \<noteq> ''videoUrl'' \<and> k \<noteq> ''timestamp'' \<and> json_plain (get ?d k) \<longrightarrow> get d' k = get ?d k))"
    using persist_load_roundtrip[OF ne, of ?dp None] l by simp
  have e: "(is_string (get ?c ''name'') \<longrightarrow>
                  (\<exists>j. handleExport (Some ?c) = Download j \<and> j ''videoUrl'' = None
                      \<and> (\<forall>k. k \<noteq> ''videoUrl'' \<longrightarrow> j k = JSON_stringify ?c k)))
         \<and> (\<not> is_string (get ?d ''name'') \<longrightarrow> handleExport (Some ?d) = ExportTypeError)"
    using persist_load_roundtrip[OF ne, of ?dp None] by blast
  have "is_string (get ?c ''name'')" and "\<not> is_string (get ?d ''name'')"
    by (simp_all add: is_string_def get_def)
  with e obtain j where j: "handleExport (Some ?c) = Download j" "j ''videoUrl'' = None"
      "\<And>k. k \<noteq> ''videoUrl'' \<Longrightarrow> j k = JSON_stringify ?c k"
    and ed: "handleExport (Some ?d) = ExportTypeError"
    by blast
  have "j ''originalImage'' = None" "j ''name'' = Some (JStr ''cat'')"
      "j ''timestamp'' = Some (JIsoStr 1700000000000)"
    using j(3)[of "''originalImage''"] j(3)[of "''name''"] j(3)[of "''timestamp''"]
    by (simp_all add: JSON_stringify_def)
  with j have ex: "\<exists>j. handleExport (Some ?c) = Download j
        \<and> j ''videoUrl'' = None \<and> j ''originalImage'' = None \<and> j ''name'' = Some (JStr ''cat'')
        \<and> j ''timestamp'' = Some (JIsoStr 1700000000000)"
    by blast
  from r have pc: "\<And>k. k \<noteq> ''videoUrl'' \<Longrightarrow> k \<noteq> ''timestamp'' \<Longrightarrow> json_plain (get ?c k)
      \<Longrightarrow> get c' k = get ?c k"
    and pd: "\<And>k. k \<noteq> ''videoUrl'' \<Longrightarrow> k \<noteq> ''timestamp'' \<Longrightarrow> json_plain (get ?d k)
      \<Longrightarrow> get d' k = get ?d k"
    and tc: "\<And>t. get ?c ''timestamp'' = JDate (ValidDate t) \<Longrightarrow> get c' ''timestamp'' = JDate (ValidDate t)"
    and vc: "c' ''videoUrl'' = None" and vd: "d' ''videoUrl'' = None"
    by blast+
  have "get c' ''id'' = JStr ''u1''" using pc[of "''id''"] by (simp add: get_def json_plain_def)
  moreover have "get c' ''name'' = JStr ''cat''"
    using pc[of "''name''"] by (simp add: get_def json_plain_def)
  moreover have "get c' ''type'' = JStr ''video''"
    using pc[of "''type''"] by (simp add: get_def json_plain_def)
  moreover have "get c' ''originalImage'' = JUndefined"
    using pc[of "''originalImage''"] by (simp add: get_def json_plain_def)
  moreover have "get c' ''tags'' = JArr [JStr ''pet'', JNum (Finite 2)]"
    using pc[of "''tags''"] by (simp add: get_def json_plain_def)
  moreover have "get c' ''timestamp'' = JDate (ValidDate 1700000000000)"
    using tc[of 1700000000000] by (simp add: get_def)
  moreover have "get d' ''id'' = JStr ''u2''" using pd[of "''id''"] by (simp add: get_def json_plain_def)
  moreover have "get d' ''type'' = JStr ''app''"
    using pd[of "''type''"] by (simp add: get_def json_plain_def)
  moreover have "get d' ''html'' = JStr ''<p>''"
    using pd[of "''html''"] by (simp add: get_def json_plain_def)
  ultimately show ?thesis using l vc vd ex ed by simp
qed

text \<open>
  Claim C2 as stated fails: a file imported with a timestamp that is not a date gives a
  creation whose timestamp is an Invalid Date; it is stored as \<^verbatim>\<open>null\<close> and comes back as
  the Date of time value 0.
\<close>

theorem invalid_timestamp_roundtrip_counterexample:
  "map (\<lambda>c. get c ''timestamp'')
     (history (handleImportFile
        (\<lambda>v. if v = JStr ''2024-05-01'' then ValidDate 1714521600000 else InvalidDate)
        (FileText (Some (PObject [''name'' \<mapsto> JStr ''n'', ''type'' \<mapsto> JStr ''app'',
                                  ''html'' \<mapsto> JStr ''<p>'', ''timestamp'' \<mapsto> JStr ''soon''])))
        5 ''u1''
        \<lparr>activeCreation = None, isGenerating = False, generationMode = App, history = [],
         alerts = [], keyDialogs = 0, calls = []\<rparr>))
     = [JDate InvalidDate]
   \<and> map (\<lambda>c. get c ''timestamp'')
     (load_saved (\<lambda>v. if v = JStr ''2024-05-01'' then ValidDate 1714521600000 else InvalidDate)
       (persist True
        (history (handleImportFile
          (\<lambda>v. if v = JStr ''2024-05-01'' then ValidDate 1714521600000 else InvalidDate)
          (FileText (Some (PObject [''name'' \<mapsto> JStr ''n'', ''type'' \<mapsto> JStr ''app'',
                                    ''html'' \<mapsto> JStr ''<p>'', ''timestamp'' \<mapsto> JStr ''soon''])))
          5 ''u1''
          \<lparr>activeCreation = None, isGenerating = False, generationMode = App, history = [],
           alerts = [], keyDialogs = 0, calls = []\<rparr>))
        None))
     = [JDate (ValidDate 0)]"
  by (simp add: handleImportFile_def valid_payload_def with_defaults_def get_def js_or_def Let_def
      load_saved_def persist_def revive_def JSON_stringify_def omit_videoUrl_def own_props_def)

text \<open>When the fallback to the three example URLs is taken, and when it is not.\<close>

lemma exampleUrls_three: "length exampleUrls = 3"
  by (simp add: exampleUrls_def)

lemma initHistory_falls_back:
  assumes "saved = None \<or> (\<exists>t. saved = Some (RawText t)) \<or> saved = Some (JsonArray [])"
  shows "initHistory Date_parse saved env hist =
     (case Promise_all (map (load_example Date_parse env) exampleUrls) of
        None \<Rightarrow> hist
      | Some examples \<Rightarrow> drop_nulls examples)"
proof -
  from assms have "load_saved Date_parse saved = []" by (auto simp: load_saved_def)
  then show ?thesis by (simp add: initHistory_def)
qed

lemma initHistory_uses_saved:
  "items \<noteq> [] \<Longrightarrow> those (map own_props items) = Some obs
   \<Longrightarrow> initHistory Date_parse (Some (JsonArray items)) env hist = map (revive Date_parse) obs"
proof -
  assume ne: "items \<noteq> []" and t: "those (map own_props items) = Some obs"
  have "length obs = length items" using t
  proof (induction items arbitrary: obs)
    case Nil
    then show ?case by simp
  next
    case (Cons i items)
    then show ?case by (auto split: option.splits)
  qed
  with ne have "obs \<noteq> []" by auto
  then show ?thesis using t by (simp add: initHistory_def load_saved_def)
qed

text \<open>
  Claim C9 on the code: with nothing stored, when the fetch of the second example rejects
  and the other two succeed, \<^verbatim>\<open>Promise.all\<close> rejects and no example is loaded; when the
  second response is merely not \<^verbatim>\<open>ok\<close>, the other two are loaded.
\<close>

theorem initHistory_rejected_fetch_loses_all:
  "initHistory Date_parse None
     \<lparr>fetch_example = (\<lambda>url.
         if url = ''https://storage.googleapis.com/sideprojects-asronline/bringanythingtolife/cassette.json''
         then FetchRejected
         else OkBody (Some (PObject [''id'' \<mapsto> JStr url, ''name'' \<mapsto> JStr ''example'',
                                     ''type'' \<mapsto> JStr ''app'', ''html'' \<mapsto> JStr ''<p>'']))),
      ex_now = 5, ex_uuid = (\<lambda>url. ''u1'')\<rparr> []
     = []
   \<and> map (\<lambda>c. get c ''id'')
       (initHistory Date_parse None
         \<lparr>fetch_example = (\<lambda>url.
             if url = ''https://storage.googleapis.com/sideprojects-asronline/bringanythingtolife/cassette.json''
             then NotOk
             else OkBody (Some (PObject [''id'' \<mapsto> JStr url, ''name'' \<mapsto> JStr ''example'',
                                         ''type'' \<mapsto> JStr ''app'', ''html'' \<mapsto> JStr ''<p>'']))),
          ex_now = 5, ex_uuid = (\<lambda>url. ''u1'')\<rparr> [])
     = [JStr ''https://storage.googleapis.com/sideprojects-asronline/bringanythingtolife/vibecode-blog.json'',
        JStr ''https://storage.googleapis.com/sideprojects-asronline/bringanythingtolife/chess.json'']"
  by (simp add: initHistory_def load_saved_def exampleUrls_def load_example_def with_defaults_def
      get_def js_or_def Let_def)

end
